theory Spec2Isabelle
  imports Main "HOL-Library.Word"
begin

unbundle bit_operations_syntax

section \<open>Data model of move.go\<close>

text \<open>
  Paths are Go strings. The operating system is not part of the repository: the calls
  the program makes (\<^verbatim>\<open>os.Lstat\<close>, \<^verbatim>\<open>os.Rename\<close>, \<^verbatim>\<open>os.ReadDir\<close>, \<^verbatim>\<open>filepath.Join\<close>)
  are taken as a parameter, a record of functions over an arbitrary type \<open>'w\<close> of file
  system states. Every theorem below holds for every such operating system.
\<close>

type_synonym path = string

datatype oserr = ErrNotExist | ErrPermission | ErrOther string

text \<open>
  \<^verbatim>\<open>os.FileInfo\<close>: the program reads \<^verbatim>\<open>Mode()\<close>, \<^verbatim>\<open>IsDir()\<close> and \<^verbatim>\<open>Size()\<close>.
  \<^verbatim>\<open>FileMode\<close> is a \<^verbatim>\<open>uint32\<close> with \<^verbatim>\<open>ModeDir = 1 << 31\<close> and
  \<^verbatim>\<open>ModeSymlink = 1 << 27\<close>; \<^verbatim>\<open>IsDir()\<close> is \<^verbatim>\<open>Mode()&ModeDir != 0\<close>.
  \<^verbatim>\<open>Size()\<close> is an \<^verbatim>\<open>int64\<close>, a 64-bit word read as a signed number.
\<close>

record FileInfo =
  Mode :: "32 word"
  Size :: "64 word"

definition ModeDir :: "32 word" where
  "ModeDir = push_bit 31 1"

definition ModeSymlink :: "32 word" where
  "ModeSymlink = push_bit 27 1"

definition IsDir :: "FileInfo \<Rightarrow> bool" where
  "IsDir fi = (Mode fi AND ModeDir \<noteq> 0)"

definition IsSymlink :: "FileInfo \<Rightarrow> bool" where
  \<comment> \<open>the test \<^verbatim>\<open>info.Mode()&os.ModeSymlink != 0\<close>\<close>
  "IsSymlink fi = (Mode fi AND ModeSymlink \<noteq> 0)"

record 'w OS =
  Lstat :: "'w \<Rightarrow> path \<Rightarrow> oserr + FileInfo"
  Rename :: "'w \<Rightarrow> path \<Rightarrow> path \<Rightarrow> oserr option \<times> 'w"
  ReadDir :: "'w \<Rightarrow> path \<Rightarrow> oserr + string list"
  Join :: "path \<Rightarrow> string \<Rightarrow> path"

text \<open>
  The structs of move.go. All counters are \<^verbatim>\<open>int64\<close>. BytesMoved grows by file
  sizes and is a 64-bit word, whose addition wraps around as \<^verbatim>\<open>atomic.AddInt64\<close> does
  (\<open>sint\<close> reads it as the signed number Go prints). The other counters start at zero
  and grow by one per file system entry, so that a wrap-around would need \<open>2^63\<close>
  entries; they are modelled as \<open>int\<close>.
\<close>

record Options =
  Workers :: int
  Buffer :: int
  Stats :: bool
  Verbose :: bool
  DryRun :: bool

record Statistics =
  DirsChecked :: int
  DirsSkipped :: int
  DirsMoved :: int
  FilesChecked :: int
  FilesSkipped :: int
  FilesMoved :: int
  BytesMoved :: "64 word"
  SymlinksSkipped :: int
  Errors :: int
  StartTime :: nat

record Job =
  SourcePath :: path
  TargetPath :: path

text \<open>
  What a worker reads and writes while it processes a Job: the file system, the shared
  statistics and, as a record of the effects, the list of operating system calls made so
  far (oldest first).
\<close>

datatype syscall = CallLstat path | CallRename path path | CallReadDir path

record 'w ctx =
  world :: 'w
  stats :: Statistics
  calls :: "syscall list"

text \<open>
  \<^verbatim>\<open>atomic.AddInt64(&stats.F, delta)\<close>: the addition is that of the counter's type, so
  it wraps around for BytesMoved.
\<close>

definition atomic_AddInt64 ::
  "(('a::plus \<Rightarrow> 'a) \<Rightarrow> Statistics \<Rightarrow> Statistics) \<Rightarrow> 'a \<Rightarrow> 'w ctx \<Rightarrow> 'w ctx" where
  "atomic_AddInt64 field delta e = e\<lparr>stats := field (\<lambda>v. v + delta) (stats e)\<rparr>"

definition os_Lstat :: "'w OS \<Rightarrow> path \<Rightarrow> 'w ctx \<Rightarrow> (oserr + FileInfo) \<times> 'w ctx" where
  "os_Lstat os p e = (Lstat os (world e) p, e\<lparr>calls := calls e @ [CallLstat p]\<rparr>)"

definition os_Rename :: "'w OS \<Rightarrow> path \<Rightarrow> path \<Rightarrow> 'w ctx \<Rightarrow> oserr option \<times> 'w ctx" where
  "os_Rename os p q e =
     (case Rename os (world e) p q of
        (err, w') \<Rightarrow> (err, e\<lparr>world := w', calls := calls e @ [CallRename p q]\<rparr>))"

definition os_ReadDir :: "'w OS \<Rightarrow> path \<Rightarrow> 'w ctx \<Rightarrow> (oserr + string list) \<times> 'w ctx" where
  "os_ReadDir os p e = (ReadDir os (world e) p, e\<lparr>calls := calls e @ [CallReadDir p]\<rparr>)"

section \<open>The per-Job algorithm\<close>

text \<open>
  \<^verbatim>\<open>processDir\<close>, \<^verbatim>\<open>processFile\<close> and \<^verbatim>\<open>processPath\<close>, branch by branch. The lines
  printed under \<^verbatim>\<open>opts.Verbose\<close> touch neither the file system nor the counters and
  are left out.
\<close>

definition processDir ::
  "'w OS \<Rightarrow> Options \<Rightarrow> path \<Rightarrow> path \<Rightarrow> bool \<Rightarrow> 'w ctx \<Rightarrow> Job list \<times> 'w ctx" where
  "processDir os opts sourcePath targetPath targetExists e0 =
     (let e1 = atomic_AddInt64 DirsChecked_update 1 e0 in
      if \<not> targetExists then
        (if \<not> DryRun opts then
           (case os_Rename os sourcePath targetPath e1 of
              (Some err, e2) \<Rightarrow> ([], atomic_AddInt64 Errors_update 1 e2)
            | (None, e2) \<Rightarrow> ([], atomic_AddInt64 DirsMoved_update 1 e2))
         else ([], atomic_AddInt64 DirsMoved_update 1 e1))
      else
        (let e2 = atomic_AddInt64 DirsSkipped_update 1 e1 in
         case os_ReadDir os sourcePath e2 of
           (Inl err, e3) \<Rightarrow> ([], atomic_AddInt64 Errors_update 1 e3)
         | (Inr entries, e3) \<Rightarrow>
             (map (\<lambda>name. \<lparr>SourcePath = Join os sourcePath name,
                            TargetPath = Join os targetPath name\<rparr>) entries, e3)))"

definition processFile ::
  "'w OS \<Rightarrow> Options \<Rightarrow> path \<Rightarrow> path \<Rightarrow> bool \<Rightarrow> FileInfo \<Rightarrow> 'w ctx \<Rightarrow> 'w ctx" where
  "processFile os opts sourcePath targetPath targetExists sourceInfo e0 =
     (let e1 = atomic_AddInt64 FilesChecked_update 1 e0 in
      if targetExists then atomic_AddInt64 FilesSkipped_update 1 e1
      else if \<not> DryRun opts then
        (case os_Rename os sourcePath targetPath e1 of
           (Some err, e2) \<Rightarrow> atomic_AddInt64 Errors_update 1 e2
         | (None, e2) \<Rightarrow>
             atomic_AddInt64 BytesMoved_update (Size sourceInfo)
               (atomic_AddInt64 FilesMoved_update 1 e2))
      else
        atomic_AddInt64 BytesMoved_update (Size sourceInfo)
          (atomic_AddInt64 FilesMoved_update 1 e1))"

definition processPath ::
  "'w OS \<Rightarrow> Options \<Rightarrow> path \<Rightarrow> path \<Rightarrow> 'w ctx \<Rightarrow> Job list \<times> 'w ctx" where
  "processPath os opts sourcePath targetPath e0 =
     (if sourcePath = targetPath then ([], e0)
      else
        case os_Lstat os sourcePath e0 of
          (Inl err, e1) \<Rightarrow> ([], atomic_AddInt64 Errors_update 1 e1)
        | (Inr sourceInfo, e1) \<Rightarrow>
            if IsSymlink sourceInfo then ([], atomic_AddInt64 SymlinksSkipped_update 1 e1)
            else
              (case os_Lstat os targetPath e1 of
                 (r, e2) \<Rightarrow>
                   (let targetExists = (case r of Inl err \<Rightarrow> False | Inr info \<Rightarrow> True) in
                    if IsDir sourceInfo
                    then processDir os opts sourcePath targetPath targetExists e2
                    else ([], processFile os opts sourcePath targetPath targetExists
                                sourceInfo e2))))"

section \<open>The worker pool\<close>

text \<open>
  The synchronisation operations of \<^verbatim>\<open>performMove\<close> and \<^verbatim>\<open>worker\<close>: the WaitGroup
  \<^verbatim>\<open>jobsWg\<close> (a counter), the buffered channel \<^verbatim>\<open>jobs\<close> (a bounded FIFO queue) and the
  final read of the error counter. A goroutine is the list of operations it still has to
  perform, in program order; a schedule picks which goroutine performs its next one.
\<close>

datatype op = WgAdd | ChSend Job | WgDone | WgWait | ChClose | CheckErrors

datatype thread = Recv | Busy "op list" | Exited

datatype merr =
    SourcePathError oserr | SourceNotDir | SourceSymlink
  | TargetPathError oserr | TargetNotDir | TargetSymlink
  | CompletedWithErrors int

datatype panic = NegativeCounter | SendOnClosed | CloseOfClosed | MakeChanSize

record 'w state =
  ctx :: "'w ctx"
  wg :: int
  chan :: "Job list"
  cap :: nat
  closed :: bool
  workers :: "thread list"
  mainq :: "op list"
  panicked :: "panic option"
  outcome :: "merr option option"

text \<open>
  The body of the worker's loop after \<^verbatim>\<open>processPath\<close> has returned \<open>newJobs\<close>:
  \<^verbatim>\<open>for _, newJob := range newJobs { jobsWg.Add(1); jobs <- newJob }; jobsWg.Done()\<close>.
\<close>

fun worker_ops :: "Job list \<Rightarrow> op list" where
  "worker_ops [] = [WgDone]"
| "worker_ops (newJob # newJobs) = WgAdd # ChSend newJob # worker_ops newJobs"

text \<open>
  The main goroutine from \<^verbatim>\<open>jobsWg.Add(1)\<close> on:
  \<^verbatim>\<open>jobsWg.Add(1); jobs <- Job{source, target}; jobsWg.Wait(); close(jobs)\<close> and the
  check of \<^verbatim>\<open>stats.Errors\<close>.
\<close>

definition main_ops :: "path \<Rightarrow> path \<Rightarrow> op list" where
  "main_ops source target =
     [WgAdd, ChSend \<lparr>SourcePath = source, TargetPath = target\<rparr>, WgWait, ChClose, CheckErrors]"

definition completion :: "Statistics \<Rightarrow> merr option" where
  \<comment> \<open>the last lines of \<^verbatim>\<open>performMove\<close>: an error when \<^verbatim>\<open>stats.Errors > 0\<close>, else \<^verbatim>\<open>nil\<close>\<close>
  "completion st = (if Errors st > 0 then Some (CompletedWithErrors (Errors st)) else None)"

text \<open>
  One operation on the shared state; \<open>None\<close> means that the goroutine blocks. A send
  blocks while the buffer is full, \<^verbatim>\<open>Wait\<close> blocks while the counter is not zero; Go
  panics on a negative WaitGroup counter, on a send on a closed channel and on closing a
  closed channel.
\<close>

fun exec_op :: "op \<Rightarrow> 'w state \<Rightarrow> 'w state option" where
  "exec_op WgAdd s = Some (s\<lparr>wg := wg s + 1\<rparr>)"
| "exec_op (ChSend j) s =
     (if closed s then Some (s\<lparr>panicked := Some SendOnClosed\<rparr>)
      else if length (chan s) < cap s then Some (s\<lparr>chan := chan s @ [j]\<rparr>)
      else None)"
| "exec_op WgDone s =
     (if wg s - 1 < 0 then Some (s\<lparr>panicked := Some NegativeCounter\<rparr>)
      else Some (s\<lparr>wg := wg s - 1\<rparr>))"
| "exec_op WgWait s = (if wg s = 0 then Some s else None)"
| "exec_op ChClose s =
     (if closed s then Some (s\<lparr>panicked := Some CloseOfClosed\<rparr>)
      else Some (s\<lparr>closed := True\<rparr>))"
| "exec_op CheckErrors s = Some (s\<lparr>outcome := Some (completion (stats (ctx s)))\<rparr>)"

datatype tid = Main | Worker nat

definition after_op :: "op list \<Rightarrow> thread" where
  "after_op ops = (if ops = [] then Recv else Busy ops)"

text \<open>
  One step of goroutine \<open>t\<close>. A worker at \<^verbatim>\<open>for job := range jobs\<close> takes the oldest Job
  of the channel and runs \<^verbatim>\<open>processPath\<close> on it, blocks on an empty open channel and
  leaves the loop on an empty closed one. The calls and counter updates of one
  \<^verbatim>\<open>processPath\<close> are taken as one step.
\<close>

definition step :: "'w OS \<Rightarrow> Options \<Rightarrow> tid \<Rightarrow> 'w state \<Rightarrow> 'w state option" where
  "step os opts t s =
     (if panicked s \<noteq> None then None
      else case t of
        Main \<Rightarrow>
          (case mainq s of
             [] \<Rightarrow> None
           | op # ops \<Rightarrow> map_option (\<lambda>s'. s'\<lparr>mainq := ops\<rparr>) (exec_op op s))
      | Worker i \<Rightarrow>
          (if length (workers s) \<le> i then None
           else case workers s ! i of
             Exited \<Rightarrow> None
           | Recv \<Rightarrow>
               (case chan s of
                  [] \<Rightarrow> if closed s then Some (s\<lparr>workers := (workers s)[i := Exited]\<rparr>)
                        else None
                | job # rest \<Rightarrow>
                    (case processPath os opts (SourcePath job) (TargetPath job) (ctx s) of
                       (newJobs, c) \<Rightarrow>
                         Some (s\<lparr>ctx := c, chan := rest,
                                 workers := (workers s)[i := Busy (worker_ops newJobs)]\<rparr>)))
           | Busy [] \<Rightarrow> Some (s\<lparr>workers := (workers s)[i := Recv]\<rparr>)
           | Busy (op # ops) \<Rightarrow>
               map_option (\<lambda>s'. s'\<lparr>workers := (workers s')[i := after_op ops]\<rparr>)
                 (exec_op op s)))"

fun run :: "'w OS \<Rightarrow> Options \<Rightarrow> tid list \<Rightarrow> 'w state \<Rightarrow> 'w state option" where
  "run os opts [] s = Some s"
| "run os opts (t # ts) s =
     (case step os opts t s of None \<Rightarrow> None | Some s' \<Rightarrow> run os opts ts s')"

section \<open>performMove\<close>

definition zero_stats :: "nat \<Rightarrow> Statistics" where
  "zero_stats now =
     \<lparr>DirsChecked = 0, DirsSkipped = 0, DirsMoved = 0, FilesChecked = 0, FilesSkipped = 0,
      FilesMoved = 0, BytesMoved = 0, SymlinksSkipped = 0, Errors = 0, StartTime = now\<rparr>"

definition bufferSize :: "Options \<Rightarrow> int" where
  "bufferSize opts = (if Buffer opts = 0 then 100000 else Buffer opts)"

text \<open>
  \<^verbatim>\<open>performMove\<close> up to the start of the workers: the two \<^verbatim>\<open>Lstat\<close> checks, each
  followed by the \<^verbatim>\<open>IsDir\<close> test and then the symlink test, the fresh statistics, the
  channel (\<^verbatim>\<open>make\<close> panics on a negative size) and \<^verbatim>\<open>opts.Workers\<close> workers waiting
  to receive. \<open>now\<close> is the value of \<^verbatim>\<open>time.Now()\<close>. The statistics reporter only reads
  the counters and is left out.
\<close>

definition performMove_init ::
  "'w OS \<Rightarrow> Options \<Rightarrow> nat \<Rightarrow> path \<Rightarrow> path \<Rightarrow> 'w \<Rightarrow> merr + 'w state" where
  "performMove_init os opts now source target w =
     (case Lstat os w source of
        Inl err \<Rightarrow> Inl (SourcePathError err)
      | Inr sourceInfo \<Rightarrow>
          if \<not> IsDir sourceInfo then Inl SourceNotDir
          else if IsSymlink sourceInfo then Inl SourceSymlink
          else
            (case Lstat os w target of
               Inl err \<Rightarrow> Inl (TargetPathError err)
             | Inr targetInfo \<Rightarrow>
                 if \<not> IsDir targetInfo then Inl TargetNotDir
                 else if IsSymlink targetInfo then Inl TargetSymlink
                 else Inr \<lparr>ctx = \<lparr>world = w, stats = zero_stats now,
                                  calls = [CallLstat source, CallLstat target]\<rparr>,
                           wg = 0, chan = [], cap = nat (bufferSize opts), closed = False,
                           workers = replicate (nat (Workers opts)) Recv,
                           mainq = main_ops source target,
                           panicked = (if bufferSize opts < 0 then Some MakeChanSize else None),
                           outcome = None\<rparr>))"

text \<open>
  The whole of \<^verbatim>\<open>performMove\<close> under a schedule: \<open>Inl\<close> when validation fails,
  otherwise the state the schedule leads to (\<open>None\<close> when the schedule asks a blocked
  goroutine to move).
\<close>

definition performMove ::
  "'w OS \<Rightarrow> Options \<Rightarrow> nat \<Rightarrow> path \<Rightarrow> path \<Rightarrow> 'w \<Rightarrow> tid list \<Rightarrow> merr + 'w state option" where
  "performMove os opts now source target w sched =
     (case performMove_init os opts now source target w of
        Inl err \<Rightarrow> Inl err
      | Inr s0 \<Rightarrow> Inr (run os opts sched s0))"

section \<open>A small file system to run the model on\<close>

text \<open>
  An in-memory file system, used only to evaluate the model on concrete inputs: a list of
  (path, node) pairs. A \<open>Locked\<close> node stands for a path below a directory without search
  permission: \<^verbatim>\<open>Lstat\<close> on it and a rename onto it fail with a permission error.
\<close>

datatype node = File "64 word" | Dir | Symlink path | Locked

type_synonym memfs = "(path \<times> node) list"

definition mem_Lstat :: "memfs \<Rightarrow> path \<Rightarrow> oserr + FileInfo" where
  "mem_Lstat w p =
     (case map_of w p of
        None \<Rightarrow> Inl ErrNotExist
      | Some (File n) \<Rightarrow> Inr \<lparr>Mode = 420, Size = n\<rparr>
      | Some Dir \<Rightarrow> Inr \<lparr>Mode = ModeDir OR 493, Size = 4096\<rparr>
      | Some (Symlink t) \<Rightarrow> Inr \<lparr>Mode = ModeSymlink OR 511, Size = of_nat (length t)\<rparr>
      | Some Locked \<Rightarrow> Inl ErrPermission)"

definition below :: "path \<Rightarrow> path \<Rightarrow> bool" where
  "below p k = (take (Suc (length p)) k = p @ ''/'')"

definition mem_Rename :: "memfs \<Rightarrow> path \<Rightarrow> path \<Rightarrow> oserr option \<times> memfs" where
  "mem_Rename w p q =
     (if map_of w p = None then (Some ErrNotExist, w)
      else if map_of w q = Some Locked then (Some ErrPermission, w)
      else (None, map (\<lambda>(k, n). (if k = p then q
                                   else if below p k then q @ drop (length p) k
                                   else k, n))
                    (filter (\<lambda>(k, n). k \<noteq> q) w)))"

definition mem_ReadDir :: "memfs \<Rightarrow> path \<Rightarrow> oserr + string list" where
  "mem_ReadDir w p =
     (case map_of w p of
        None \<Rightarrow> Inl ErrNotExist
      | Some Dir \<Rightarrow>
          Inr (map (\<lambda>(k, n). drop (Suc (length p)) k)
                 (filter (\<lambda>(k, n). below p k \<and> CHR ''/'' \<notin> set (drop (Suc (length p)) k)) w))
      | Some other \<Rightarrow> Inl (ErrOther ''not a directory''))"

definition mem_Join :: "path \<Rightarrow> string \<Rightarrow> path" where
  "mem_Join p name = p @ ''/'' @ name"

definition mem_os :: "memfs OS" where
  "mem_os = \<lparr>Lstat = mem_Lstat, Rename = mem_Rename, ReadDir = mem_ReadDir, Join = mem_Join\<rparr>"

definition plain :: Options where
  "plain = \<lparr>Workers = 1, Buffer = 0, Stats = False, Verbose = False, DryRun = False\<rparr>"

definition ctx0 :: "'w \<Rightarrow> 'w ctx" where
  "ctx0 w = \<lparr>world = w, stats = zero_stats 0, calls = []\<rparr>"

section \<open>Bookkeeping of the outstanding work\<close>

text \<open>
  What an operation that is still to be performed will do to the balance between the
  WaitGroup counter and the length of the channel: an \<^verbatim>\<open>Add(1)\<close> raises the counter, a
  send lengthens the channel, a \<^verbatim>\<open>Done\<close> lowers the counter.
\<close>

fun weight :: "op \<Rightarrow> int" where
  "weight WgAdd = - 1"
| "weight (ChSend j) = 1"
| "weight WgDone = 1"
| "weight WgWait = 0"
| "weight ChClose = 0"
| "weight CheckErrors = 0"

definition pending :: "op list \<Rightarrow> int" where
  "pending ops = sum_list (map weight ops)"

fun thread_pending :: "thread \<Rightarrow> int" where
  "thread_pending Recv = 0"
| "thread_pending Exited = 0"
| "thread_pending (Busy ops) = pending ops"

text \<open>The positions a worker can be at inside the loop body.\<close>

fun loop_head :: "op list \<Rightarrow> bool" where
  "loop_head [WgDone] = True"
| "loop_head (WgAdd # ChSend j # ops) = loop_head ops"
| "loop_head ops = False"

fun in_body :: "op list \<Rightarrow> bool" where
  "in_body (ChSend j # ops) = loop_head ops"
| "in_body ops = loop_head ops"

fun thread_ok :: "thread \<Rightarrow> bool" where
  "thread_ok Recv = True"
| "thread_ok Exited = True"
| "thread_ok (Busy ops) = in_body ops"

fun is_busy :: "thread \<Rightarrow> bool" where
  "is_busy (Busy ops) = True"
| "is_busy t = False"

text \<open>The positions of the main goroutine.\<close>

definition main_wf :: "op list \<Rightarrow> bool" where
  "main_wf ops =
     (case ops of
        WgAdd # ChSend j # rest \<Rightarrow> rest = [WgWait, ChClose, CheckErrors]
      | ChSend j # rest \<Rightarrow> rest = [WgWait, ChClose, CheckErrors]
      | _ \<Rightarrow> ops \<in> {[WgWait, ChClose, CheckErrors], [ChClose, CheckErrors], [CheckErrors], []})"

definition sync_inv :: "'w state \<Rightarrow> bool" where
  "sync_inv s =
     ((panicked s = None \<or> panicked s = Some MakeChanSize \<and> length (mainq s) = 5) \<and>
      wg s = int (length (chan s)) + sum_list (map thread_pending (workers s))
               + pending (mainq s) \<and>
      list_all thread_ok (workers s) \<and>
      main_wf (mainq s) \<and>
      (length (mainq s) \<le> 2 \<longrightarrow> wg s = 0) \<and>
      (closed s \<longrightarrow> length (mainq s) \<le> 1) \<and>
      (outcome s \<noteq> None \<longrightarrow> mainq s = []))"

definition is_rename :: "syscall \<Rightarrow> bool" where
  "is_rename c = (case c of CallRename p q \<Rightarrow> True | _ \<Rightarrow> False)"

definition outcome_ok :: "'w state \<Rightarrow> bool" where
  "outcome_ok s = (case outcome s of None \<Rightarrow> True | Some r \<Rightarrow> r = completion (stats (ctx s)))"

definition stats_inv :: "Options \<Rightarrow> Statistics \<Rightarrow> bool" where
  "stats_inv opts st =
     (0 \<le> Errors st \<and>
      FilesMoved st + FilesSkipped st \<le> FilesChecked st \<and>
      FilesChecked st \<le> FilesMoved st + FilesSkipped st + Errors st \<and>
      (DryRun opts \<longrightarrow> FilesMoved st + FilesSkipped st = FilesChecked st))"






section \<open>Example file systems and runs\<close>

text \<open>Concrete inputs on which the theorems below are instantiated.\<close>

definition demo_fs :: memfs where
  "demo_fs =
     [(''/s'', Dir), (''/t'', Dir), (''/s/a'', File 5), (''/s/b'', File 3), (''/s/d'', Dir),
      (''/s/d/x'', File 7), (''/s/l'', Symlink ''/s/a''), (''/s/k'', File 2),
      (''/t/a'', File 1), (''/t/k'', Locked)]"

definition link_fs :: memfs where
  "link_fs = [(''/real'', Dir), (''/link'', Symlink ''/real''), (''/f'', File 1), (''/t'', Dir)]"

definition dry :: Options where
  "dry = plain\<lparr>DryRun := True\<rparr>"

text \<open>
  Runs with one worker and a channel of capacity 4: \<open>pool1\<close> builds the states of such a
  run, \<open>sched1\<close> is the schedule of a run over a source directory with one entry (the
  main goroutine seeds the channel, the worker expands the root and resolves the entry,
  the main goroutine waits, closes and checks).
\<close>

definition opts4 :: "bool \<Rightarrow> Options" where
  "opts4 d = \<lparr>Workers = 1, Buffer = 4, Stats = False, Verbose = False, DryRun = d\<rparr>"

definition pool1 ::
  "memfs ctx \<Rightarrow> int \<Rightarrow> Job list \<Rightarrow> bool \<Rightarrow> thread \<Rightarrow> op list \<Rightarrow> merr option option
   \<Rightarrow> memfs state" where
  "pool1 c n q cl t m oc =
     \<lparr>ctx = c, wg = n, chan = q, cap = 4, closed = cl, workers = [t], mainq = m,
      panicked = None, outcome = oc\<rparr>"

definition sched1 :: "tid list" where
  "sched1 = [Main, Main, Worker 0, Worker 0, Worker 0, Worker 0, Worker 0, Worker 0,
             Main, Main, Main]"

definition root_calls :: "syscall list" where
  "root_calls = [CallLstat ''/s'', CallLstat ''/t'', CallLstat ''/s'', CallLstat ''/t'',
                 CallReadDir ''/s'']"

definition root_stats :: Statistics where
  "root_stats = (zero_stats 0)\<lparr>DirsChecked := 1, DirsSkipped := 1\<rparr>"

text \<open>A source with one file \<open>k\<close> whose target path cannot be examined or written.\<close>

definition fs8 :: memfs where
  "fs8 = [(''/s'', Dir), (''/t'', Dir), (''/s/k'', File 2), (''/t/k'', Locked)]"

definition job_k :: Job where
  "job_k = \<lparr>SourcePath = ''/s/k'', TargetPath = ''/t/k''\<rparr>"

definition c8_0 :: "memfs ctx" where
  "c8_0 = \<lparr>world = fs8, stats = zero_stats 0, calls = [CallLstat ''/s'', CallLstat ''/t'']\<rparr>"

definition c8_3 :: "memfs ctx" where
  "c8_3 = \<lparr>world = fs8, stats = root_stats, calls = root_calls\<rparr>"

definition c8_7 :: "memfs ctx" where
  "c8_7 = \<lparr>world = fs8, stats = root_stats\<lparr>FilesChecked := 1, Errors := 1\<rparr>,
            calls = root_calls @ [CallLstat ''/s/k'', CallLstat ''/t/k'',
                                  CallRename ''/s/k'' ''/t/k'']\<rparr>"

definition c8_7d :: "memfs ctx" where
  "c8_7d = \<lparr>world = fs8,
             stats = root_stats\<lparr>FilesChecked := 1, FilesMoved := 1, BytesMoved := 2\<rparr>,
             calls = root_calls @ [CallLstat ''/s/k'', CallLstat ''/t/k'']\<rparr>"

text \<open>A source with one file \<open>a\<close> that already exists in the target.\<close>

definition fs6 :: memfs where
  "fs6 = [(''/s'', Dir), (''/t'', Dir), (''/s/a'', File 5), (''/t/a'', File 1)]"

definition job_a :: Job where
  "job_a = \<lparr>SourcePath = ''/s/a'', TargetPath = ''/t/a''\<rparr>"

definition c6_0 :: "memfs ctx" where
  "c6_0 = \<lparr>world = fs6, stats = zero_stats 0, calls = [CallLstat ''/s'', CallLstat ''/t'']\<rparr>"

definition c6_3 :: "memfs ctx" where
  "c6_3 = \<lparr>world = fs6, stats = root_stats, calls = root_calls\<rparr>"

definition c6_7 :: "memfs ctx" where
  "c6_7 = \<lparr>world = fs6, stats = root_stats\<lparr>FilesChecked := 1, FilesSkipped := 1\<rparr>,
            calls = root_calls @ [CallLstat ''/s/a'', CallLstat ''/t/a'']\<rparr>"






section \<open>Facts about the bookkeeping\<close>

lemmas job_defs = processPath_def processDir_def processFile_def os_Lstat_def os_Rename_def
  os_ReadDir_def atomic_AddInt64_def Let_def

lemmas mem_defs = mem_os_def mem_Lstat_def mem_Rename_def mem_ReadDir_def mem_Join_def below_def
  IsDir_def IsSymlink_def ModeDir_def ModeSymlink_def plain_def dry_def ctx0_def zero_stats_def

lemma pending_Cons: "pending (x # xs) = weight x + pending xs"
  by (simp add: pending_def)

lemma pending_Nil: "pending [] = 0"
  by (simp add: pending_def)

lemma loop_head_worker_ops: "loop_head (worker_ops js)"
  by (induction js) auto

lemma loop_head_pending: "loop_head ops \<Longrightarrow> pending ops = 1"
  by (induction ops rule: loop_head.induct) (auto simp: pending_Cons pending_Nil)

lemma in_body_pending: "in_body ops \<Longrightarrow> 1 \<le> pending ops"
  by (induction ops rule: in_body.induct)
     (auto simp: pending_Cons pending_Nil dest: loop_head_pending)

lemma in_body_worker_ops: "in_body (worker_ops js)"
  by (cases js) (auto simp: loop_head_worker_ops)

lemma pending_worker_ops: "pending (worker_ops js) = 1"
  by (simp add: loop_head_pending loop_head_worker_ops)

lemma loop_head_in_body: "loop_head ops \<Longrightarrow> in_body ops \<and> ops \<noteq> []"
  by (induction ops rule: loop_head.induct) auto

lemma in_body_cases:
  "in_body (op # ops) \<Longrightarrow>
   (op = WgDone \<and> ops = []) \<or> (\<exists>j. op = ChSend j \<and> loop_head ops) \<or>
   (\<exists>j r. op = WgAdd \<and> ops = ChSend j # r \<and> loop_head r)"
  apply (cases op)
       apply (cases ops; simp)
  subgoal for a list by (cases a; simp)
      apply simp
     apply (cases ops; simp)
    apply (cases ops; simp)
   apply (cases ops; simp)
  apply (cases ops; simp)
  done


lemma thread_ok_nonneg: "thread_ok t \<Longrightarrow> 0 \<le> thread_pending t"
  by (cases t) (auto dest: in_body_pending)

lemma workers_nonneg: "list_all thread_ok ws \<Longrightarrow> 0 \<le> sum_list (map thread_pending ws)"
  by (induction ws) (auto dest: thread_ok_nonneg)

lemma busy_worker_pending:
  "list_all thread_ok ws \<Longrightarrow> i < length ws \<Longrightarrow> ws ! i = Busy ops \<Longrightarrow>
   1 \<le> sum_list (map thread_pending ws)"
proof (induction ws arbitrary: i)
  case Nil
  then show ?case by simp
next
  case (Cons t ts)
  show ?case
  proof (cases i)
    case 0
    with Cons.prems have "in_body ops" "t = Busy ops" by auto
    moreover from Cons.prems have "0 \<le> sum_list (map thread_pending ts)"
      by (simp add: workers_nonneg)
    ultimately show ?thesis using in_body_pending [of ops] by simp
  next
    case (Suc k)
    with Cons.prems have "1 \<le> sum_list (map thread_pending ts)"
      using Cons.IH [of k] by simp
    moreover from Cons.prems have "0 \<le> thread_pending t"
      by (simp add: thread_ok_nonneg)
    ultimately show ?thesis by simp
  qed
qed

lemma main_wf_nonneg: "main_wf ops \<Longrightarrow> 0 \<le> pending ops"
  by (auto simp: main_wf_def pending_Cons pending_Nil split: list.splits op.splits)

lemma main_wf_cases:
  "main_wf (op # ops) \<Longrightarrow>
   (op = WgAdd \<and> (\<exists>j. ops = [ChSend j, WgWait, ChClose, CheckErrors])) \<or>
   ((\<exists>j. op = ChSend j) \<and> ops = [WgWait, ChClose, CheckErrors]) \<or>
   (op = WgWait \<and> ops = [ChClose, CheckErrors]) \<or>
   (op = ChClose \<and> ops = [CheckErrors]) \<or>
   (op = CheckErrors \<and> ops = [])"
  by (simp add: main_wf_def split: list.splits op.splits)

lemma main_wf_simps:
  "main_wf [WgAdd, ChSend j, WgWait, ChClose, CheckErrors]"
  "main_wf [ChSend j, WgWait, ChClose, CheckErrors]"
  "main_wf [WgWait, ChClose, CheckErrors]"
  "main_wf [ChClose, CheckErrors]"
  "main_wf [CheckErrors]"
  "main_wf []"
  by (simp_all add: main_wf_def)

lemma sum_list_map_update:
  fixes f :: "'a \<Rightarrow> int"
  shows "i < length xs \<Longrightarrow>
    sum_list (map f (xs[i := y])) = sum_list (map f xs) - f (xs ! i) + f y"
proof (induction xs arbitrary: i)
  case Nil
  then show ?case by simp
next
  case (Cons x xs)
  then show ?case by (cases i) auto
qed

lemma list_all_update: "list_all P xs \<Longrightarrow> P y \<Longrightarrow> list_all P (xs[i := y])"
  by (induction xs arbitrary: i) (auto split: nat.splits)

lemma exec_op_frame:
  "exec_op op s = Some s' \<Longrightarrow>
   ctx s' = ctx s \<and> workers s' = workers s \<and> mainq s' = mainq s \<and> cap s' = cap s"
  by (cases op) (auto split: if_splits)

lemma exec_op_outcome:
  "exec_op op s = Some s' \<Longrightarrow>
   outcome s' = (if op = CheckErrors then Some (completion (stats (ctx s))) else outcome s)"
  by (cases op) (auto split: if_splits)

lemma step_not_panicked: "step os opts t s = Some s' \<Longrightarrow> panicked s = None"
  by (auto simp: step_def split: if_splits)

subsection \<open>The counter invariant is kept by every step\<close>

lemma busy_positive:
  assumes "sync_inv s" "i < length (workers s)" "workers s ! i = Busy ops"
  shows "1 \<le> wg s \<and> 2 < length (mainq s) \<and> \<not> closed s"
proof -
  from assms have "1 \<le> sum_list (map thread_pending (workers s))"
    by (auto simp: sync_inv_def intro: busy_worker_pending)
  moreover from assms have "0 \<le> pending (mainq s)"
    by (simp add: sync_inv_def main_wf_nonneg)
  moreover from assms have
    "wg s = int (length (chan s)) + sum_list (map thread_pending (workers s)) + pending (mainq s)"
    by (simp add: sync_inv_def)
  ultimately have "1 \<le> wg s" by simp
  with assms(1) show ?thesis by (auto simp: sync_inv_def)
qed

lemma quiescent:
  assumes "sync_inv s" "wg s = 0"
  shows "chan s = [] \<and> \<not> list_ex is_busy (workers s)"
proof -
  from assms have "0 \<le> sum_list (map thread_pending (workers s))" "0 \<le> pending (mainq s)"
    by (simp_all add: sync_inv_def workers_nonneg main_wf_nonneg)
  moreover from assms have
    "0 = int (length (chan s)) + sum_list (map thread_pending (workers s)) + pending (mainq s)"
    by (simp add: sync_inv_def)
  ultimately have "int (length (chan s)) = 0" by linarith
  then have "chan s = []" by simp
  moreover have "\<not> list_ex is_busy (workers s)"
  proof
    assume "list_ex is_busy (workers s)"
    then obtain i where "i < length (workers s)" "is_busy (workers s ! i)"
      by (auto simp: list_ex_length)
    then obtain ops where "workers s ! i = Busy ops" by (cases "workers s ! i") auto
    with assms \<open>i < length (workers s)\<close> show False
      using busy_positive [of s i ops] by simp
  qed
  ultimately show ?thesis by simp
qed

lemma sync_inv_main:
  assumes inv: "sync_inv s" and st: "step os opts Main s = Some s'"
  shows "sync_inv s'"
proof -
  from st have np: "panicked s = None" by (rule step_not_panicked)
  from st np obtain op ops s1 where mq: "mainq s = op # ops"
    and ex: "exec_op op s = Some s1" and s': "s' = s1\<lparr>mainq := ops\<rparr>"
    by (auto simp: step_def split: list.splits)
  from inv mq have wf: "main_wf (op # ops)" by (simp add: sync_inv_def)
  from inv mq have bal:
    "wg s = int (length (chan s)) + sum_list (map thread_pending (workers s)) + weight op
            + pending ops"
    by (simp add: sync_inv_def pending_Cons)
  from inv have ok: "list_all thread_ok (workers s)" by (simp add: sync_inv_def)
  from inv mq have cl: "closed s \<Longrightarrow> ops = []" by (simp add: sync_inv_def)
  from inv mq have w0: "length ops \<le> 1 \<Longrightarrow> wg s = 0" by (simp add: sync_inv_def)
  from inv mq have oc: "outcome s = None" by (auto simp: sync_inv_def)
  from main_wf_cases [OF wf] show ?thesis
  proof (elim disjE conjE exE)
    fix j assume "op = WgAdd" "ops = [ChSend j, WgWait, ChClose, CheckErrors]"
    with ex s' bal ok cl oc np show ?thesis
      by (auto simp: sync_inv_def main_wf_simps pending_Cons pending_Nil)
  next
    fix j assume "op = ChSend j" "ops = [WgWait, ChClose, CheckErrors]"
    with ex s' bal ok cl oc np show ?thesis
      by (auto simp: sync_inv_def main_wf_simps pending_Cons pending_Nil split: if_splits)
  next
    assume "op = WgWait" "ops = [ChClose, CheckErrors]"
    with ex s' bal ok cl oc np show ?thesis
      by (auto simp: sync_inv_def main_wf_simps pending_Cons pending_Nil split: if_splits)
  next
    assume "op = ChClose" "ops = [CheckErrors]"
    with ex s' bal ok cl oc np w0 show ?thesis
      by (auto simp: sync_inv_def main_wf_simps pending_Cons pending_Nil split: if_splits)
  next
    assume "op = CheckErrors" "ops = []"
    with ex s' bal ok cl oc np w0 show ?thesis
      by (auto simp: sync_inv_def main_wf_simps pending_Cons pending_Nil split: if_splits)
  qed
qed

lemma sync_inv_worker:
  assumes inv: "sync_inv s" and st: "step os opts (Worker i) s = Some s'"
  shows "sync_inv s'"
proof -
  from st have np: "panicked s = None" by (rule step_not_panicked)
  from st np have i: "i < length (workers s)"
    by (auto simp: step_def split: if_splits)
  from inv have bal:
    "wg s = int (length (chan s)) + sum_list (map thread_pending (workers s)) + pending (mainq s)"
    by (simp add: sync_inv_def)
  from inv have ok: "list_all thread_ok (workers s)" by (simp add: sync_inv_def)
  from ok i have oki: "thread_ok (workers s ! i)" by (simp add: list_all_length)
  show ?thesis
  proof (cases "workers s ! i")
    case Exited
    with st np i show ?thesis by (simp add: step_def)
  next
    case Recv
    show ?thesis
    proof (cases "chan s")
      case Nil
      with st np i Recv have s': "s' = s\<lparr>workers := (workers s)[i := Exited]\<rparr>"
        by (auto simp: step_def split: if_splits)
      from i Recv have "sum_list (map thread_pending ((workers s)[i := Exited]))
          = sum_list (map thread_pending (workers s))"
        by (simp add: sum_list_map_update)
      moreover from ok have "list_all thread_ok ((workers s)[i := Exited])"
        by (simp add: list_all_update)
      ultimately show ?thesis using inv s' np by (auto simp: sync_inv_def)
    next
      case (Cons job rest)
      obtain js c where
        pp: "processPath os opts (SourcePath job) (TargetPath job) (ctx s) = (js, c)"
        by (cases "processPath os opts (SourcePath job) (TargetPath job) (ctx s)")
      with st np i Recv Cons have s':
        "s' = s\<lparr>ctx := c, chan := rest, workers := (workers s)[i := Busy (worker_ops js)]\<rparr>"
        by (simp add: step_def)
      from i Recv have "sum_list (map thread_pending ((workers s)[i := Busy (worker_ops js)]))
          = sum_list (map thread_pending (workers s)) + 1"
        by (simp add: sum_list_map_update pending_worker_ops)
      moreover from ok have "list_all thread_ok ((workers s)[i := Busy (worker_ops js)])"
        by (simp add: list_all_update in_body_worker_ops)
      ultimately show ?thesis using inv s' Cons np by (auto simp: sync_inv_def)
    qed
  next
    case (Busy ops0)
    from busy_positive [OF inv i Busy]
    have pos: "1 \<le> wg s" "2 < length (mainq s)" "\<not> closed s"
      by simp_all
    from oki Busy have ib: "in_body ops0" by simp
    then obtain op ops where ops0: "ops0 = op # ops" by (cases ops0) auto
    from st np i Busy ops0 obtain s1 where ex: "exec_op op s = Some s1"
      and s': "s' = s1\<lparr>workers := (workers s1)[i := after_op ops]\<rparr>"
      by (auto simp: step_def)
    from inv pos have rest: "outcome s = None" "main_wf (mainq s)"
      by (auto simp: sync_inv_def)
    from ib ops0 have "in_body (op # ops)" by simp
    from in_body_cases [OF this] show ?thesis
    proof (elim disjE conjE exE)
      assume c: "op = WgDone" "ops = []"
      from i Busy ops0 c have "sum_list (map thread_pending ((workers s)[i := Recv]))
          = sum_list (map thread_pending (workers s)) - 1"
        by (simp add: sum_list_map_update pending_Cons pending_Nil)
      moreover from ok have "list_all thread_ok ((workers s)[i := Recv])"
        by (simp add: list_all_update)
      ultimately show ?thesis using c ex s' bal pos rest np
        by (auto simp: sync_inv_def after_op_def)
    next
      fix j assume c: "op = ChSend j" "loop_head ops"
      from c have ne: "ops \<noteq> []" "in_body ops" by (simp_all add: loop_head_in_body)
      from i Busy ops0 c have "sum_list (map thread_pending ((workers s)[i := Busy ops]))
          = sum_list (map thread_pending (workers s)) - 1"
        by (simp add: sum_list_map_update pending_Cons)
      moreover from ok ne have "list_all thread_ok ((workers s)[i := Busy ops])"
        by (simp add: list_all_update)
      ultimately show ?thesis using c ne ex s' bal pos rest np
        by (auto simp: sync_inv_def after_op_def split: if_splits)
    next
      fix j r assume c: "op = WgAdd" "ops = ChSend j # r" "loop_head r"
      from i Busy ops0 c have "sum_list (map thread_pending ((workers s)[i := Busy ops]))
          = sum_list (map thread_pending (workers s)) + 1"
        by (simp add: sum_list_map_update pending_Cons)
      moreover from ok c have "list_all thread_ok ((workers s)[i := Busy ops])"
        by (simp add: list_all_update)
      ultimately show ?thesis using c ex s' bal pos rest np
        by (auto simp: sync_inv_def after_op_def)
    qed
  qed
qed

lemma sync_inv_step: "sync_inv s \<Longrightarrow> step os opts t s = Some s' \<Longrightarrow> sync_inv s'"
  by (cases t) (auto intro: sync_inv_main sync_inv_worker)

lemma sync_inv_run: "sync_inv s \<Longrightarrow> run os opts sched s = Some s' \<Longrightarrow> sync_inv s'"
proof (induction sched arbitrary: s)
  case Nil
  then show ?case by simp
next
  case (Cons t ts)
  then show ?case by (auto split: option.splits dest: sync_inv_step)
qed

subsection \<open>What a step does to the file system and the counters\<close>

lemma step_ctx:
  "step os opts t s = Some s' \<Longrightarrow>
   ctx s' = ctx s \<or>
   (\<exists>job rest. chan s = job # rest \<and>
      ctx s' = snd (processPath os opts (SourcePath job) (TargetPath job) (ctx s)))"
  by (cases t)
     (auto simp: step_def split: if_splits list.splits thread.splits prod.splits
           dest: exec_op_frame)

lemma processPath_stats_inv:
  "stats_inv opts (stats e) \<Longrightarrow> stats_inv opts (stats (snd (processPath os opts p q e)))"
  by (auto simp: job_defs stats_inv_def split: prod.splits sum.splits option.splits)

lemma stats_inv_step:
  "stats_inv opts (stats (ctx s)) \<Longrightarrow> step os opts t s = Some s' \<Longrightarrow>
   stats_inv opts (stats (ctx s'))"
  using processPath_stats_inv step_ctx by metis

lemma stats_inv_run:
  "stats_inv opts (stats (ctx s)) \<Longrightarrow> run os opts sched s = Some s' \<Longrightarrow>
   stats_inv opts (stats (ctx s'))"
proof (induction sched arbitrary: s)
  case Nil
  then show ?case by simp
next
  case (Cons t ts)
  then show ?case by (auto split: option.splits dest: stats_inv_step)
qed

lemma dry_job:
  assumes "DryRun opts"
  shows "world (snd (processPath os opts s t e)) = world e \<and>
    filter is_rename (calls (snd (processPath os opts s t e))) = filter is_rename (calls e)"
  using assms
  by (auto simp: job_defs is_rename_def split: prod.splits sum.splits option.splits if_splits)

lemma dry_as_real:
  assumes "DryRun opts" "fst (rn (world e) s t) = None"
  shows "fst (processPath os opts s t e) =
      fst (processPath (os\<lparr>Rename := rn\<rparr>) (opts\<lparr>DryRun := False\<rparr>) s t e) \<and>
    stats (snd (processPath os opts s t e)) =
      stats (snd (processPath (os\<lparr>Rename := rn\<rparr>) (opts\<lparr>DryRun := False\<rparr>) s t e))"
  using assms
  by (auto simp: job_defs split: prod.splits sum.splits option.splits if_splits)

lemma file_job_eq:
  assumes "p \<noteq> q" "Lstat os (world e) p = Inr si" "\<not> IsSymlink si" "\<not> IsDir si"
  shows "processPath os opts p q e =
     ([], processFile os opts p q (case Lstat os (world e) q of Inl err \<Rightarrow> False | Inr ti \<Rightarrow> True) si
            (e\<lparr>calls := calls e @ [CallLstat p, CallLstat q]\<rparr>))"
  using assms by (simp add: processPath_def os_Lstat_def Let_def)

lemma dir_job_eq:
  assumes "p \<noteq> q" "Lstat os (world e) p = Inr si" "\<not> IsSymlink si" "IsDir si"
  shows "processPath os opts p q e =
     processDir os opts p q (case Lstat os (world e) q of Inl err \<Rightarrow> False | Inr ti \<Rightarrow> True)
            (e\<lparr>calls := calls e @ [CallLstat p, CallLstat q]\<rparr>)"
  using assms by (simp add: processPath_def os_Lstat_def Let_def)

lemma processFile_skip:
  "processFile os opts p q True si e =
     e\<lparr>stats := (stats e)\<lparr>FilesChecked := FilesChecked (stats e) + 1,
                             FilesSkipped := FilesSkipped (stats e) + 1\<rparr>\<rparr>"
  by (simp add: processFile_def atomic_AddInt64_def)

lemma processFile_dry:
  "DryRun opts \<Longrightarrow> processFile os opts p q False si e =
     e\<lparr>stats := (stats e)\<lparr>FilesChecked := FilesChecked (stats e) + 1,
                             FilesMoved := FilesMoved (stats e) + 1,
                             BytesMoved := BytesMoved (stats e) + Size si\<rparr>\<rparr>"
  by (simp add: processFile_def atomic_AddInt64_def)

lemma processFile_moved:
  "\<not> DryRun opts \<Longrightarrow> Rename os (world e) p q = (None, w') \<Longrightarrow>
   processFile os opts p q False si e =
     e\<lparr>world := w',
       stats := (stats e)\<lparr>FilesChecked := FilesChecked (stats e) + 1,
                             FilesMoved := FilesMoved (stats e) + 1,
                             BytesMoved := BytesMoved (stats e) + Size si\<rparr>,
       calls := calls e @ [CallRename p q]\<rparr>"
  by (simp add: processFile_def os_Rename_def atomic_AddInt64_def)

lemma processFile_failed:
  "\<not> DryRun opts \<Longrightarrow> Rename os (world e) p q = (Some err, w') \<Longrightarrow>
   processFile os opts p q False si e =
     e\<lparr>world := w',
       stats := (stats e)\<lparr>FilesChecked := FilesChecked (stats e) + 1,
                             Errors := Errors (stats e) + 1\<rparr>,
       calls := calls e @ [CallRename p q]\<rparr>"
  by (simp add: processFile_def os_Rename_def atomic_AddInt64_def)

lemma processDir_dry:
  "DryRun opts \<Longrightarrow> processDir os opts p q False e =
     ([], e\<lparr>stats := (stats e)\<lparr>DirsChecked := DirsChecked (stats e) + 1,
                                  DirsMoved := DirsMoved (stats e) + 1\<rparr>\<rparr>)"
  by (simp add: processDir_def atomic_AddInt64_def)

lemma processDir_moved:
  "\<not> DryRun opts \<Longrightarrow> Rename os (world e) p q = (None, w') \<Longrightarrow>
   processDir os opts p q False e =
     ([], e\<lparr>world := w',
       stats := (stats e)\<lparr>DirsChecked := DirsChecked (stats e) + 1,
                             DirsMoved := DirsMoved (stats e) + 1\<rparr>,
       calls := calls e @ [CallRename p q]\<rparr>)"
  by (simp add: processDir_def os_Rename_def atomic_AddInt64_def)

lemma processDir_failed:
  "\<not> DryRun opts \<Longrightarrow> Rename os (world e) p q = (Some err, w') \<Longrightarrow>
   processDir os opts p q False e =
     ([], e\<lparr>world := w',
       stats := (stats e)\<lparr>DirsChecked := DirsChecked (stats e) + 1,
                             Errors := Errors (stats e) + 1\<rparr>,
       calls := calls e @ [CallRename p q]\<rparr>)"
  by (simp add: processDir_def os_Rename_def atomic_AddInt64_def)

lemma processDir_bytes:
  "BytesMoved (stats (snd (processDir os opts p q tex e))) = BytesMoved (stats e) \<and>
   FilesMoved (stats (snd (processDir os opts p q tex e))) = FilesMoved (stats e) \<and>
   FilesChecked (stats (snd (processDir os opts p q tex e))) = FilesChecked (stats e) \<and>
   FilesSkipped (stats (snd (processDir os opts p q tex e))) = FilesSkipped (stats e)"
proof (cases "Rename os (world e) p q")
  case (Pair err w')
  show ?thesis
  proof (cases "ReadDir os (world e) p")
    case (Inl a)
    with Pair show ?thesis
      by (cases err)
         (simp_all add: processDir_def os_Rename_def os_ReadDir_def atomic_AddInt64_def Let_def)
  next
    case (Inr b)
    with Pair show ?thesis
      by (cases err)
         (simp_all add: processDir_def os_Rename_def os_ReadDir_def atomic_AddInt64_def Let_def)
  qed
qed

lemma not_file_job:
  assumes "\<not> (p \<noteq> q \<and> (\<exists>si. Lstat os (world e) p = Inr si \<and> \<not> IsSymlink si \<and> \<not> IsDir si))"
  shows "BytesMoved (stats (snd (processPath os opts p q e))) = BytesMoved (stats e) \<and>
   FilesMoved (stats (snd (processPath os opts p q e))) = FilesMoved (stats e) \<and>
   FilesChecked (stats (snd (processPath os opts p q e))) = FilesChecked (stats e) \<and>
   FilesSkipped (stats (snd (processPath os opts p q e))) = FilesSkipped (stats e)"
proof (cases "p = q")
  case True
  then show ?thesis by (simp add: processPath_def)
next
  case False
  show ?thesis
  proof (cases "Lstat os (world e) p")
    case (Inl err)
    with False show ?thesis
      by (simp add: processPath_def os_Lstat_def atomic_AddInt64_def)
  next
    case (Inr si)
    show ?thesis
    proof (cases "IsSymlink si")
      case True
      with False Inr show ?thesis
        by (simp add: processPath_def os_Lstat_def atomic_AddInt64_def)
    next
      case ns: False
      with assms False Inr have "IsDir si" by auto
      with False Inr ns show ?thesis
        by (simp add: dir_job_eq processDir_bytes)
    qed
  qed
qed

lemma dry_step:
  assumes "DryRun opts" "step os opts t s = Some s'"
  shows "world (ctx s') = world (ctx s) \<and>
    filter is_rename (calls (ctx s')) = filter is_rename (calls (ctx s))"
  using step_ctx [OF assms(2)] dry_job [OF assms(1)] by metis

lemma dry_run:
  "DryRun opts \<Longrightarrow> run os opts sched s = Some s' \<Longrightarrow>
   world (ctx s') = world (ctx s) \<and>
   filter is_rename (calls (ctx s')) = filter is_rename (calls (ctx s))"
proof (induction sched arbitrary: s)
  case Nil
  then show ?case by simp
next
  case (Cons t ts)
  from Cons.prems obtain s1 where a: "step os opts t s = Some s1"
    and b: "run os opts ts s1 = Some s'"
    by (auto split: option.splits)
  from dry_step [OF Cons.prems(1) a] Cons.IH [OF Cons.prems(1) b] show ?case by simp
qed

subsection \<open>The value returned is the one computed from the final counters\<close>

lemma outcome_ok_step:
  assumes inv: "sync_inv s" and oc: "outcome_ok s" and st: "step os opts t s = Some s'"
  shows "outcome_ok s'"
proof (cases "outcome s")
  case None
  show ?thesis
  proof (cases t)
    case Main
    with st obtain op ops s1 where ex: "exec_op op s = Some s1" and s': "s' = s1\<lparr>mainq := ops\<rparr>"
      by (auto simp: step_def split: if_splits list.splits)
    from exec_op_outcome [OF ex] exec_op_frame [OF ex] None s' show ?thesis
      by (simp add: outcome_ok_def)
  next
    case (Worker i)
    from st Worker have i: "i < length (workers s)"
      by (auto simp: step_def split: if_splits)
    have "outcome s' = None"
    proof (cases "workers s ! i")
      case Exited
      with st Worker i show ?thesis by (auto simp: step_def split: if_splits)
    next
      case Recv
      with st Worker i None show ?thesis
        by (auto simp: step_def split: if_splits list.splits prod.splits)
    next
      case (Busy ops0)
      from inv i have "thread_ok (workers s ! i)" by (simp add: sync_inv_def list_all_length)
      with Busy have ib: "in_body ops0" by simp
      then obtain op ops where ops0: "ops0 = op # ops" by (cases ops0) auto
      from st Worker i Busy ops0 obtain s1 where ex: "exec_op op s = Some s1"
        and s': "s' = s1\<lparr>workers := (workers s1)[i := after_op ops]\<rparr>"
        by (auto simp: step_def split: if_splits)
      from ib ops0 in_body_cases [of op ops] have "op \<noteq> CheckErrors" by auto
      with exec_op_outcome [OF ex] None s' show ?thesis by simp
    qed
    then show ?thesis by (simp add: outcome_ok_def)
  qed
next
  case (Some r)
  with inv have mq: "mainq s = []" and w0: "wg s = 0"
    by (auto simp: sync_inv_def)
  from quiescent [OF inv w0] have q: "chan s = []" "\<not> list_ex is_busy (workers s)"
    by simp_all
  show ?thesis
  proof (cases t)
    case Main
    with st mq show ?thesis by (simp add: step_def split: if_splits)
  next
    case (Worker i)
    from st Worker have i: "i < length (workers s)"
      by (auto simp: step_def split: if_splits)
    with q have nb: "\<not> is_busy (workers s ! i)" by (auto simp: list_ex_length)
    from st Worker q(1) i nb have "ctx s' = ctx s" "outcome s' = outcome s"
      by (cases "workers s ! i"; auto simp: step_def split: if_splits)+
    with oc show ?thesis by (auto simp: outcome_ok_def split: option.splits)
  qed
qed

lemma outcome_ok_run:
  "sync_inv s \<Longrightarrow> outcome_ok s \<Longrightarrow> run os opts sched s = Some s' \<Longrightarrow> outcome_ok s'"
proof (induction sched arbitrary: s)
  case Nil
  then show ?case by simp
next
  case (Cons t ts)
  from Cons.prems obtain s1 where a: "step os opts t s = Some s1"
    and b: "run os opts ts s1 = Some s'"
    by (auto split: option.splits)
  from Cons.prems a have c: "sync_inv s1" and d: "outcome_ok s1"
    by (auto intro: sync_inv_step outcome_ok_step)
  from c d b show ?case by (rule Cons.IH)
qed

subsection \<open>The state in which the workers start\<close>

lemma replicate_Recv:
  "sum_list (map thread_pending (replicate n Recv)) = 0 \<and> list_all thread_ok (replicate n Recv)"
  by (induction n) auto

lemma init_state:
  assumes "performMove_init os opts now source target w = Inr s0"
  shows "sync_inv s0 \<and> outcome_ok s0 \<and> stats_inv opts (stats (ctx s0)) \<and>
    world (ctx s0) = w \<and> filter is_rename (calls (ctx s0)) = []"
  using assms
  by (auto simp: performMove_init_def sync_inv_def outcome_ok_def stats_inv_def zero_stats_def
        is_rename_def main_ops_def main_wf_def pending_Cons pending_Nil replicate_Recv
        sum_list_replicate
      split: sum.splits if_splits)

lemma performMove_reaches:
  assumes "performMove os opts now source target w sched = Inr (Some s)"
  shows "sync_inv s \<and> outcome_ok s \<and> stats_inv opts (stats (ctx s))"
proof -
  from assms obtain s0 where a: "performMove_init os opts now source target w = Inr s0"
    and b: "run os opts sched s0 = Some s"
    by (auto simp: performMove_def split: sum.splits)
  from init_state [OF a] b show ?thesis
    by (auto intro: sync_inv_run outcome_ok_run stats_inv_run)
qed

subsection \<open>The paths of the Jobs of a run\<close>
















section \<open>Single Jobs on the example file system\<close>

lemma demo_lstat:
  "Lstat mem_os demo_fs ''/s'' = Inr \<lparr>Mode = ModeDir OR 493, Size = 4096\<rparr>"
  "Lstat mem_os demo_fs ''/t'' = Inr \<lparr>Mode = ModeDir OR 493, Size = 4096\<rparr>"
  "Lstat mem_os demo_fs ''/s/a'' = Inr \<lparr>Mode = 420, Size = 5\<rparr>"
  "Lstat mem_os demo_fs ''/t/a'' = Inr \<lparr>Mode = 420, Size = 1\<rparr>"
  "Lstat mem_os demo_fs ''/s/b'' = Inr \<lparr>Mode = 420, Size = 3\<rparr>"
  "Lstat mem_os demo_fs ''/t/b'' = Inl ErrNotExist"
  "Lstat mem_os demo_fs ''/s/d'' = Inr \<lparr>Mode = ModeDir OR 493, Size = 4096\<rparr>"
  "Lstat mem_os demo_fs ''/t/d'' = Inl ErrNotExist"
  "Lstat mem_os demo_fs ''/s/l'' = Inr \<lparr>Mode = ModeSymlink OR 511, Size = 4\<rparr>"
  "Lstat mem_os demo_fs ''/s/k'' = Inr \<lparr>Mode = 420, Size = 2\<rparr>"
  "Lstat mem_os demo_fs ''/t/k'' = Inl ErrPermission"
  "Lstat mem_os demo_fs ''/t/l'' = Inl ErrNotExist"
  by (simp_all add: mem_os_def mem_Lstat_def demo_fs_def)

lemma demo_modes:
  "IsDir \<lparr>Mode = ModeDir OR 493, Size = n\<rparr>"
  "\<not> IsSymlink \<lparr>Mode = ModeDir OR 493, Size = n\<rparr>"
  "\<not> IsDir \<lparr>Mode = 420, Size = n\<rparr>"
  "\<not> IsSymlink \<lparr>Mode = 420, Size = n\<rparr>"
  "\<not> IsDir \<lparr>Mode = ModeSymlink OR 511, Size = n\<rparr>"
  "IsSymlink \<lparr>Mode = ModeSymlink OR 511, Size = n\<rparr>"
  by (simp_all add: IsDir_def IsSymlink_def ModeDir_def ModeSymlink_def)

lemma demo_lstat0:
  "Lstat mem_os (world (ctx0 demo_fs)) p = Lstat mem_os demo_fs p"
  by (simp add: ctx0_def)

lemma ctx0_simps: "world (ctx0 w) = w" "stats (ctx0 w) = zero_stats 0" "calls (ctx0 w) = []"
  by (simp_all add: ctx0_def)

lemma dry_flag: "DryRun dry"
  by (simp add: dry_def plain_def)

lemma demo_readdir: "ReadDir mem_os demo_fs ''/s'' = Inr [''a'', ''b'', ''d'', ''l'', ''k'']"
  by (simp add: mem_os_def mem_ReadDir_def below_def demo_fs_def)

lemma demo_root:
  "processPath mem_os plain ''/s'' ''/t'' (ctx0 demo_fs) =
     ([\<lparr>SourcePath = ''/s/a'', TargetPath = ''/t/a''\<rparr>,
       \<lparr>SourcePath = ''/s/b'', TargetPath = ''/t/b''\<rparr>,
       \<lparr>SourcePath = ''/s/d'', TargetPath = ''/t/d''\<rparr>,
       \<lparr>SourcePath = ''/s/l'', TargetPath = ''/t/l''\<rparr>,
       \<lparr>SourcePath = ''/s/k'', TargetPath = ''/t/k''\<rparr>],
      \<lparr>world = demo_fs, stats = (zero_stats 0)\<lparr>DirsChecked := 1, DirsSkipped := 1\<rparr>,
       calls = [CallLstat ''/s'', CallLstat ''/t'', CallReadDir ''/s'']\<rparr>)"
  by (simp add: mem_defs job_defs demo_fs_def)

lemma demo_same_path:
  "processPath mem_os plain ''/s'' ''/s'' (ctx0 demo_fs) = ([], ctx0 demo_fs)"
  "processPath mem_os plain ''/s/a'' ''/s/a'' (ctx0 demo_fs) = ([], ctx0 demo_fs)"
  "processPath mem_os plain ''/s/l'' ''/s/l'' (ctx0 demo_fs) = ([], ctx0 demo_fs)"
  by (simp_all add: processPath_def)

lemma demo_file_skip:
  "processPath mem_os plain ''/s/a'' ''/t/a'' (ctx0 demo_fs) =
     ([], \<lparr>world = demo_fs, stats = (zero_stats 0)\<lparr>FilesChecked := 1, FilesSkipped := 1\<rparr>,
           calls = [CallLstat ''/s/a'', CallLstat ''/t/a'']\<rparr>)"
  by (simp add: mem_defs job_defs demo_fs_def)

lemma demo_file_move:
  "processPath mem_os plain ''/s/b'' ''/t/b'' (ctx0 demo_fs) =
     ([], \<lparr>world = [(''/s'', Dir), (''/t'', Dir), (''/s/a'', File 5), (''/t/b'', File 3),
                     (''/s/d'', Dir), (''/s/d/x'', File 7), (''/s/l'', Symlink ''/s/a''),
                     (''/s/k'', File 2), (''/t/a'', File 1), (''/t/k'', Locked)],
           stats = (zero_stats 0)\<lparr>FilesChecked := 1, FilesMoved := 1, BytesMoved := 3\<rparr>,
           calls = [CallLstat ''/s/b'', CallLstat ''/t/b'', CallRename ''/s/b'' ''/t/b'']\<rparr>)"
  by (simp add: mem_defs job_defs demo_fs_def)

lemma demo_file_move_dry:
  "processPath mem_os dry ''/s/b'' ''/t/b'' (ctx0 demo_fs) =
     ([], \<lparr>world = demo_fs,
           stats = (zero_stats 0)\<lparr>FilesChecked := 1, FilesMoved := 1, BytesMoved := 3\<rparr>,
           calls = [CallLstat ''/s/b'', CallLstat ''/t/b'']\<rparr>)"
  by (simp add: mem_defs job_defs demo_fs_def)

lemma demo_dir_move:
  "processPath mem_os plain ''/s/d'' ''/t/d'' (ctx0 demo_fs) =
     ([], \<lparr>world = [(''/s'', Dir), (''/t'', Dir), (''/s/a'', File 5), (''/s/b'', File 3),
                     (''/t/d'', Dir), (''/t/d/x'', File 7), (''/s/l'', Symlink ''/s/a''),
                     (''/s/k'', File 2), (''/t/a'', File 1), (''/t/k'', Locked)],
           stats = (zero_stats 0)\<lparr>DirsChecked := 1, DirsMoved := 1\<rparr>,
           calls = [CallLstat ''/s/d'', CallLstat ''/t/d'', CallRename ''/s/d'' ''/t/d'']\<rparr>)"
  by (simp add: mem_defs job_defs demo_fs_def)

lemma demo_dir_move_dry:
  "processPath mem_os dry ''/s/d'' ''/t/d'' (ctx0 demo_fs) =
     ([], \<lparr>world = demo_fs, stats = (zero_stats 0)\<lparr>DirsChecked := 1, DirsMoved := 1\<rparr>,
           calls = [CallLstat ''/s/d'', CallLstat ''/t/d'']\<rparr>)"
  by (simp add: mem_defs job_defs demo_fs_def)

lemma demo_symlink:
  "processPath mem_os plain ''/s/l'' ''/t/l'' (ctx0 demo_fs) =
     ([], \<lparr>world = demo_fs, stats = (zero_stats 0)\<lparr>SymlinksSkipped := 1\<rparr>,
           calls = [CallLstat ''/s/l'']\<rparr>)"
  by (simp add: mem_defs job_defs demo_fs_def)

lemma demo_locked:
  "processPath mem_os plain ''/s/k'' ''/t/k'' (ctx0 demo_fs) =
     ([], \<lparr>world = demo_fs, stats = (zero_stats 0)\<lparr>FilesChecked := 1, Errors := 1\<rparr>,
           calls = [CallLstat ''/s/k'', CallLstat ''/t/k'', CallRename ''/s/k'' ''/t/k'']\<rparr>)"
  by (simp add: mem_defs job_defs demo_fs_def)

lemma demo_locked_dry:
  "processPath mem_os dry ''/s/k'' ''/t/k'' (ctx0 demo_fs) =
     ([], \<lparr>world = demo_fs,
           stats = (zero_stats 0)\<lparr>FilesChecked := 1, FilesMoved := 1, BytesMoved := 2\<rparr>,
           calls = [CallLstat ''/s/k'', CallLstat ''/t/k'']\<rparr>)"
  by (simp add: mem_defs job_defs demo_fs_def)

lemma demo_rename:
  "Rename mem_os demo_fs ''/s/b'' ''/t/b'' =
     (None, [(''/s'', Dir), (''/t'', Dir), (''/s/a'', File 5), (''/t/b'', File 3),
             (''/s/d'', Dir), (''/s/d/x'', File 7), (''/s/l'', Symlink ''/s/a''),
             (''/s/k'', File 2), (''/t/a'', File 1), (''/t/k'', Locked)])"
  "Rename mem_os demo_fs ''/s/k'' ''/t/k'' = (Some ErrPermission, demo_fs)"
  by (simp_all add: mem_os_def mem_Rename_def below_def demo_fs_def)

section \<open>Claims about a single Job\<close>

text \<open>
  C2, as stated: for every Job whose source is a directory (not a symlink), if the target
  path does not exist exactly one rename of the whole subtree is attempted and there are
  no child Jobs; if the target path exists no rename is attempted and there is exactly
  one child Job per immediate entry of the source directory, pairing source/entry with
  target/entry (none for an empty directory).

  This fails in two ways. With dry-run enabled the Job for the directory \<open>/s/d\<close>, whose
  target \<open>/t/d\<close> is absent, makes no rename call at all. A Job whose two paths are equal
  returns at once: \<open>/s\<close> onto \<open>/s\<close> has an existing target and five entries, and produces
  no child.
\<close>

theorem dir_job_counterexample:
  "Lstat mem_os demo_fs ''/s/d'' = Inr \<lparr>Mode = ModeDir OR 493, Size = 4096\<rparr> \<and>
   IsDir \<lparr>Mode = ModeDir OR 493, Size = 4096\<rparr> \<and>
   \<not> IsSymlink \<lparr>Mode = ModeDir OR 493, Size = 4096\<rparr> \<and>
   Lstat mem_os demo_fs ''/t/d'' = Inl ErrNotExist \<and>
   DryRun dry \<and>
   filter is_rename (calls (snd (processPath mem_os dry ''/s/d'' ''/t/d'' (ctx0 demo_fs)))) = [] \<and>
   Lstat mem_os demo_fs ''/s'' = Inr \<lparr>Mode = ModeDir OR 493, Size = 4096\<rparr> \<and>
   ReadDir mem_os demo_fs ''/s'' = Inr [''a'', ''b'', ''d'', ''l'', ''k''] \<and>
   fst (processPath mem_os plain ''/s'' ''/s'' (ctx0 demo_fs)) = []"
  by (simp add: demo_lstat demo_modes demo_readdir demo_dir_move_dry demo_same_path
        is_rename_def dry_flag)

text \<open>
  C2, amended: for every Job with two different paths whose source is a directory (not
  a symlink): if the target path does not exist (\<^verbatim>\<open>Lstat\<close> on it fails) the Job has no
  child Jobs and its calls are the two \<^verbatim>\<open>Lstat\<close>s followed, unless dry-run is enabled,
  by exactly one rename of source to target; if the target path exists the calls are the
  two \<^verbatim>\<open>Lstat\<close>s and one \<^verbatim>\<open>ReadDir\<close>, no rename, the file system is unchanged, and
  when the listing succeeds there is exactly one child Job per entry, in listing order,
  pairing Join(source, entry) with Join(target, entry), so none for an empty listing;
  when the listing fails there is no child and one error is counted. A Job whose two
  paths are equal does nothing.
\<close>

theorem dir_job_amended:
  assumes "s \<noteq> t" "Lstat os (world e) s = Inr si" "\<not> IsSymlink si" "IsDir si"
    and "processPath os opts s t e = (js, e')"
  shows
    "(\<forall>err. Lstat os (world e) t = Inl err \<longrightarrow>
        js = [] \<and>
        calls e' = calls e @ [CallLstat s, CallLstat t] @
                     (if DryRun opts then [] else [CallRename s t])) \<and>
     (\<forall>ti. Lstat os (world e) t = Inr ti \<longrightarrow>
        calls e' = calls e @ [CallLstat s, CallLstat t, CallReadDir s] \<and>
        world e' = world e \<and>
        (case ReadDir os (world e) s of
           Inr entries \<Rightarrow>
             js = map (\<lambda>name. \<lparr>SourcePath = Join os s name, TargetPath = Join os t name\<rparr>)
                    entries
         | Inl err \<Rightarrow> js = [] \<and> Errors (stats e') = Errors (stats e) + 1)) \<and>
     processPath os opts s s e = ([], e)"
  using assms
  by (auto simp: job_defs split: prod.splits sum.splits option.splits if_splits)

theorem dir_job_amended_witness:
  "processPath mem_os plain ''/s'' ''/t'' (ctx0 demo_fs) =
     ([\<lparr>SourcePath = ''/s/a'', TargetPath = ''/t/a''\<rparr>,
       \<lparr>SourcePath = ''/s/b'', TargetPath = ''/t/b''\<rparr>,
       \<lparr>SourcePath = ''/s/d'', TargetPath = ''/t/d''\<rparr>,
       \<lparr>SourcePath = ''/s/l'', TargetPath = ''/t/l''\<rparr>,
       \<lparr>SourcePath = ''/s/k'', TargetPath = ''/t/k''\<rparr>],
      \<lparr>world = demo_fs, stats = (zero_stats 0)\<lparr>DirsChecked := 1, DirsSkipped := 1\<rparr>,
       calls = [CallLstat ''/s'', CallLstat ''/t'', CallReadDir ''/s'']\<rparr>) \<and>
   fst (processPath mem_os plain ''/s/d'' ''/t/d'' (ctx0 demo_fs)) = [] \<and>
   calls (snd (processPath mem_os plain ''/s/d'' ''/t/d'' (ctx0 demo_fs))) =
     [CallLstat ''/s/d'', CallLstat ''/t/d'', CallRename ''/s/d'' ''/t/d'']"
proof -
  have ne: "''/s'' \<noteq> ''/t''" "''/s/d'' \<noteq> ''/t/d''" by simp_all
  have i: "Lstat mem_os (world (ctx0 demo_fs)) ''/s'' = Inr \<lparr>Mode = ModeDir OR 493, Size = 4096\<rparr>"
    and d: "Lstat mem_os (world (ctx0 demo_fs)) ''/s/d'' = Inr \<lparr>Mode = ModeDir OR 493, Size = 4096\<rparr>"
    by (simp_all add: demo_lstat0 demo_lstat)
  note i = i demo_modes(2) demo_modes(1)
  note d = d demo_modes(2) demo_modes(1)
  from dir_job_amended [OF ne(1) i demo_root] dir_job_amended [OF ne(2) d demo_dir_move]
  show ?thesis by (simp add: demo_root demo_dir_move)
qed

text \<open>
  C3, as stated: for every Job whose source is a regular file (or any object that is
  neither a directory nor a symlink), if the target path exists no rename is attempted
  and FilesSkipped and FilesChecked are incremented; if the target path is absent a
  rename from source to target is attempted; in both cases there are no child Jobs.

  This fails in two ways. With dry-run enabled the Job for the file \<open>/s/b\<close>, whose target
  \<open>/t/b\<close> is absent, makes no rename call. A Job whose two paths are equal returns at
  once: \<open>/s/a\<close> onto \<open>/s/a\<close> has an existing target, and neither counter moves.
\<close>

theorem file_job_counterexample:
  "Lstat mem_os demo_fs ''/s/b'' = Inr \<lparr>Mode = 420, Size = 3\<rparr> \<and>
   \<not> IsDir \<lparr>Mode = 420, Size = 3\<rparr> \<and> \<not> IsSymlink \<lparr>Mode = 420, Size = 3\<rparr> \<and>
   Lstat mem_os demo_fs ''/t/b'' = Inl ErrNotExist \<and>
   DryRun dry \<and>
   filter is_rename (calls (snd (processPath mem_os dry ''/s/b'' ''/t/b'' (ctx0 demo_fs)))) = [] \<and>
   Lstat mem_os demo_fs ''/s/a'' = Inr \<lparr>Mode = 420, Size = 5\<rparr> \<and>
   FilesChecked (stats (snd (processPath mem_os plain ''/s/a'' ''/s/a'' (ctx0 demo_fs)))) =
     FilesChecked (stats (ctx0 demo_fs)) \<and>
   FilesSkipped (stats (snd (processPath mem_os plain ''/s/a'' ''/s/a'' (ctx0 demo_fs)))) =
     FilesSkipped (stats (ctx0 demo_fs))"
  by (simp add: demo_lstat demo_modes demo_file_move_dry demo_same_path is_rename_def dry_flag)

text \<open>
  C3, amended: for every Job with two different paths whose source is neither a
  directory nor a symlink there are no child Jobs, and: if the target path exists the
  only calls are the two \<^verbatim>\<open>Lstat\<close>s, the file system is unchanged, and FilesChecked and
  FilesSkipped are incremented by one, no other counter changing; if the target path is
  absent (\<^verbatim>\<open>Lstat\<close> on it fails) the calls are the two \<^verbatim>\<open>Lstat\<close>s followed, unless
  dry-run is enabled, by exactly one rename of source to target, FilesChecked is
  incremented and FilesSkipped is not. A Job whose two paths are equal does nothing.
\<close>

theorem file_job_amended:
  assumes "s \<noteq> t" "Lstat os (world e) s = Inr si" "\<not> IsSymlink si" "\<not> IsDir si"
    and "processPath os opts s t e = (js, e')"
  shows "js = [] \<and>
    (\<forall>ti. Lstat os (world e) t = Inr ti \<longrightarrow>
       e' = e\<lparr>stats := (stats e)\<lparr>FilesChecked := FilesChecked (stats e) + 1,
                                 FilesSkipped := FilesSkipped (stats e) + 1\<rparr>,
              calls := calls e @ [CallLstat s, CallLstat t]\<rparr>) \<and>
    (\<forall>err. Lstat os (world e) t = Inl err \<longrightarrow>
       calls e' = calls e @ [CallLstat s, CallLstat t] @
                    (if DryRun opts then [] else [CallRename s t]) \<and>
       FilesChecked (stats e') = FilesChecked (stats e) + 1 \<and>
       FilesSkipped (stats e') = FilesSkipped (stats e)) \<and>
    processPath os opts s s e = ([], e)"
  using assms
  by (auto simp: job_defs split: prod.splits sum.splits option.splits if_splits)

theorem file_job_amended_witness:
  "fst (processPath mem_os plain ''/s/a'' ''/t/a'' (ctx0 demo_fs)) = [] \<and>
   snd (processPath mem_os plain ''/s/a'' ''/t/a'' (ctx0 demo_fs)) =
     \<lparr>world = demo_fs, stats = (zero_stats 0)\<lparr>FilesChecked := 1, FilesSkipped := 1\<rparr>,
      calls = [CallLstat ''/s/a'', CallLstat ''/t/a'']\<rparr> \<and>
   calls (snd (processPath mem_os plain ''/s/b'' ''/t/b'' (ctx0 demo_fs))) =
     [CallLstat ''/s/b'', CallLstat ''/t/b'', CallRename ''/s/b'' ''/t/b'']"
proof -
  have ne: "''/s/a'' \<noteq> ''/t/a''" "''/s/b'' \<noteq> ''/t/b''" by simp_all
  have a: "Lstat mem_os (world (ctx0 demo_fs)) ''/s/a'' = Inr \<lparr>Mode = 420, Size = 5\<rparr>"
    and b: "Lstat mem_os (world (ctx0 demo_fs)) ''/s/b'' = Inr \<lparr>Mode = 420, Size = 3\<rparr>"
    by (simp_all add: demo_lstat0 demo_lstat)
  note a = a demo_modes(4) demo_modes(3)
  note b = b demo_modes(4) demo_modes(3)
  from file_job_amended [OF ne(1) a demo_file_skip] file_job_amended [OF ne(2) b demo_file_move]
  show ?thesis by (simp add: demo_file_skip demo_file_move)
qed


text \<open>
  C9, as stated: for every Job the target path is considered to exist exactly when
  \<^verbatim>\<open>Lstat\<close> on it returns no error, and on any \<^verbatim>\<open>Lstat\<close> failure a move of the source
  onto the target is attempted rather than the entry being skipped.

  This fails on two Jobs of the example file system. With dry-run enabled the Job for
  \<open>/s/k\<close>, whose target cannot be examined (permission denied), is counted as moved and
  no rename is attempted. The Job for the symbolic link \<open>/s/l\<close>, whose target \<open>/t/l\<close>
  does not exist, is skipped as a symlink: its target is never examined and nothing is
  moved.
\<close>

theorem lstat_failure_counterexample:
  "Lstat mem_os demo_fs ''/t/k'' = Inl ErrPermission \<and>
   DryRun dry \<and>
   processPath mem_os dry ''/s/k'' ''/t/k'' (ctx0 demo_fs) =
     ([], \<lparr>world = demo_fs,
           stats = (zero_stats 0)\<lparr>FilesChecked := 1, FilesMoved := 1, BytesMoved := 2\<rparr>,
           calls = [CallLstat ''/s/k'', CallLstat ''/t/k'']\<rparr>) \<and>
   Lstat mem_os demo_fs ''/s/l'' = Inr \<lparr>Mode = ModeSymlink OR 511, Size = 4\<rparr> \<and>
   Lstat mem_os demo_fs ''/t/l'' = Inl ErrNotExist \<and>
   processPath mem_os plain ''/s/l'' ''/t/l'' (ctx0 demo_fs) =
     ([], \<lparr>world = demo_fs, stats = (zero_stats 0)\<lparr>SymlinksSkipped := 1\<rparr>,
           calls = [CallLstat ''/s/l'']\<rparr>)"
  by (simp add: demo_lstat dry_flag demo_locked_dry demo_symlink)

text \<open>
  C9, amended: for every Job whose target is examined (its two paths differ, \<^verbatim>\<open>Lstat\<close>
  of the source succeeds and the source is not a symlink) the target counts as existing
  exactly when \<^verbatim>\<open>Lstat\<close> on it returns no error. On any error (not-exists, permission
  denied, any other) the Job takes the move branch: it has no children, it is not counted
  as skipped, and its calls are the two \<^verbatim>\<open>Lstat\<close>s followed, unless dry-run is enabled,
  by one rename of the source onto the target. It is counted as moved (DirsMoved or
  FilesMoved) when dry-run is enabled or that rename succeeds, and as an error, not as
  moved, when the rename fails.
\<close>

theorem lstat_failure_means_absent:
  assumes "s \<noteq> t" "Lstat os (world e) s = Inr si" "\<not> IsSymlink si"
  shows
    "processPath os opts s t e =
       (let e2 = e\<lparr>calls := calls e @ [CallLstat s, CallLstat t]\<rparr>;
            targetExists = (\<forall>err. Lstat os (world e) t \<noteq> Inl err)
        in if IsDir si then processDir os opts s t targetExists e2
           else ([], processFile os opts s t targetExists si e2)) \<and>
     (\<forall>err. Lstat os (world e) t = Inl err \<longrightarrow>
        fst (processPath os opts s t e) = [] \<and>
        calls (snd (processPath os opts s t e)) =
          calls e @ [CallLstat s, CallLstat t] @ (if DryRun opts then [] else [CallRename s t]) \<and>
        FilesSkipped (stats (snd (processPath os opts s t e))) = FilesSkipped (stats e) \<and>
        DirsSkipped (stats (snd (processPath os opts s t e))) = DirsSkipped (stats e) \<and>
        (DryRun opts \<or> fst (Rename os (world e) s t) = None \<longrightarrow>
           Errors (stats (snd (processPath os opts s t e))) = Errors (stats e) \<and>
           DirsMoved (stats (snd (processPath os opts s t e))) =
             DirsMoved (stats e) + (if IsDir si then 1 else 0) \<and>
           FilesMoved (stats (snd (processPath os opts s t e))) =
             FilesMoved (stats e) + (if IsDir si then 0 else 1)) \<and>
        (\<not> DryRun opts \<and> fst (Rename os (world e) s t) \<noteq> None \<longrightarrow>
           Errors (stats (snd (processPath os opts s t e))) = Errors (stats e) + 1 \<and>
           DirsMoved (stats (snd (processPath os opts s t e))) = DirsMoved (stats e) \<and>
           FilesMoved (stats (snd (processPath os opts s t e))) = FilesMoved (stats e)))"
proof -
  have a: "processPath os opts s t e =
       (let e2 = e\<lparr>calls := calls e @ [CallLstat s, CallLstat t]\<rparr>;
            targetExists = (\<forall>err. Lstat os (world e) t \<noteq> Inl err)
        in if IsDir si then processDir os opts s t targetExists e2
           else ([], processFile os opts s t targetExists si e2))"
    using assms
    by (cases "Lstat os (world e) t") (simp_all add: processPath_def os_Lstat_def Let_def)
  have b: "fst (processPath os opts s t e) = [] \<and>
        calls (snd (processPath os opts s t e)) =
          calls e @ [CallLstat s, CallLstat t] @ (if DryRun opts then [] else [CallRename s t]) \<and>
        FilesSkipped (stats (snd (processPath os opts s t e))) = FilesSkipped (stats e) \<and>
        DirsSkipped (stats (snd (processPath os opts s t e))) = DirsSkipped (stats e) \<and>
        (DryRun opts \<or> fst (Rename os (world e) s t) = None \<longrightarrow>
           Errors (stats (snd (processPath os opts s t e))) = Errors (stats e) \<and>
           DirsMoved (stats (snd (processPath os opts s t e))) =
             DirsMoved (stats e) + (if IsDir si then 1 else 0) \<and>
           FilesMoved (stats (snd (processPath os opts s t e))) =
             FilesMoved (stats e) + (if IsDir si then 0 else 1)) \<and>
        (\<not> DryRun opts \<and> fst (Rename os (world e) s t) \<noteq> None \<longrightarrow>
           Errors (stats (snd (processPath os opts s t e))) = Errors (stats e) + 1 \<and>
           DirsMoved (stats (snd (processPath os opts s t e))) = DirsMoved (stats e) \<and>
           FilesMoved (stats (snd (processPath os opts s t e))) = FilesMoved (stats e))"
    if f: "Lstat os (world e) t = Inl err" for err
  proof (cases "Rename os (world e) s t")
    case (Pair r w')
    let ?e2 = "e\<lparr>calls := calls e @ [CallLstat s, CallLstat t]\<rparr>"
    from Pair have rn: "Rename os (world ?e2) s t = (r, w')" by simp
    show ?thesis
    proof (cases "IsDir si")
      case True
      note eq = dir_job_eq [OF assms True, of opts]
      show ?thesis
      proof (cases "DryRun opts")
        case dry: True
        with eq f True show ?thesis by (simp add: processDir_dry)
      next
        case real: False
        with eq f True Pair rn show ?thesis
          by (cases r) (simp_all add: processDir_moved processDir_failed)
      qed
    next
      case False
      note eq = file_job_eq [OF assms False, of opts]
      show ?thesis
      proof (cases "DryRun opts")
        case dry: True
        with eq f False show ?thesis by (simp add: processFile_dry)
      next
        case real: False
        with eq f False Pair rn show ?thesis
          by (cases r) (simp_all add: processFile_moved processFile_failed)
      qed
    qed
  qed
  from a b show ?thesis by blast
qed

theorem lstat_failure_means_absent_witness:
  "Lstat mem_os demo_fs ''/t/k'' = Inl ErrPermission \<and>
   fst (Rename mem_os demo_fs ''/s/k'' ''/t/k'') = Some ErrPermission \<and>
   fst (processPath mem_os plain ''/s/k'' ''/t/k'' (ctx0 demo_fs)) = [] \<and>
   calls (snd (processPath mem_os plain ''/s/k'' ''/t/k'' (ctx0 demo_fs))) =
     [CallLstat ''/s/k'', CallLstat ''/t/k'', CallRename ''/s/k'' ''/t/k''] \<and>
   FilesSkipped (stats (snd (processPath mem_os plain ''/s/k'' ''/t/k'' (ctx0 demo_fs)))) = 0 \<and>
   FilesMoved (stats (snd (processPath mem_os plain ''/s/k'' ''/t/k'' (ctx0 demo_fs)))) = 0 \<and>
   Errors (stats (snd (processPath mem_os plain ''/s/k'' ''/t/k'' (ctx0 demo_fs)))) = 1"
proof -
  have ne: "''/s/k'' \<noteq> ''/t/k''" by simp
  have k: "Lstat mem_os (world (ctx0 demo_fs)) ''/s/k'' = Inr \<lparr>Mode = 420, Size = 2\<rparr>"
    by (simp add: demo_lstat0 demo_lstat)
  have tk: "Lstat mem_os (world (ctx0 demo_fs)) ''/t/k'' = Inl ErrPermission"
    by (simp add: demo_lstat0 demo_lstat)
  have rn: "fst (Rename mem_os (world (ctx0 demo_fs)) ''/s/k'' ''/t/k'') = Some ErrPermission"
    by (simp add: ctx0_simps demo_rename)
  have np: "\<not> DryRun plain" by (simp add: plain_def)
  note absent = lstat_failure_means_absent [OF ne k demo_modes(4), of plain]
  from absent [THEN conjunct2, rule_format, OF tk] rn np
  show ?thesis by (simp add: demo_lstat demo_rename ctx0_simps zero_stats_def)
qed

text \<open>
  C10, as stated: BytesMoved is incremented only when an individual file Job is moved.

  With dry-run enabled nothing is moved, and the Job for the file \<open>/s/b\<close>, whose target
  is absent, still adds the size of the file to BytesMoved: the file system is unchanged,
  no rename is called, and BytesMoved is 3.
\<close>

theorem bytes_moved_counterexample:
  "DryRun dry \<and>
   processPath mem_os dry ''/s/b'' ''/t/b'' (ctx0 demo_fs) =
     ([], \<lparr>world = demo_fs,
           stats = (zero_stats 0)\<lparr>FilesChecked := 1, FilesMoved := 1, BytesMoved := 3\<rparr>,
           calls = [CallLstat ''/s/b'', CallLstat ''/t/b'']\<rparr>) \<and>
   map_of demo_fs ''/s/b'' = Some (File 3) \<and>
   map_of demo_fs ''/t/b'' = None"
  by (simp add: dry_flag demo_file_move_dry) (simp add: demo_fs_def)

text \<open>
  C10, amended: BytesMoved changes only in a Job with two different paths whose source
  is neither a directory nor a symlink and whose target is absent (\<^verbatim>\<open>Lstat\<close> on it
  fails), and then only when the rename of source onto target succeeds or, with dry-run
  enabled, is left out. It then grows, in \<^verbatim>\<open>int64\<close> arithmetic, by the size that the
  \<^verbatim>\<open>Lstat\<close> of the source reported before the move, and FilesMoved grows by one; with
  dry-run off the rename has been called and the file system is the one it left. Every
  other Job leaves BytesMoved unchanged, in particular every Job whose source is a
  directory, also when it renames the whole subtree.
\<close>

theorem bytes_moved_only_by_file_moves:
  assumes "processPath os opts p q e = (js, e')"
  shows
    "(\<forall>si err. p \<noteq> q \<and> Lstat os (world e) p = Inr si \<and> \<not> IsSymlink si \<and> \<not> IsDir si \<and>
        Lstat os (world e) q = Inl err \<and>
        (DryRun opts \<or> fst (Rename os (world e) p q) = None) \<longrightarrow>
        BytesMoved (stats e') = BytesMoved (stats e) + Size si \<and>
        FilesMoved (stats e') = FilesMoved (stats e) + 1 \<and>
        (if DryRun opts
         then world e' = world e \<and> calls e' = calls e @ [CallLstat p, CallLstat q]
         else world e' = snd (Rename os (world e) p q) \<and>
              calls e' = calls e @ [CallLstat p, CallLstat q, CallRename p q])) \<and>
     (\<not> (\<exists>si err. p \<noteq> q \<and> Lstat os (world e) p = Inr si \<and> \<not> IsSymlink si \<and> \<not> IsDir si \<and>
           Lstat os (world e) q = Inl err \<and>
           (DryRun opts \<or> fst (Rename os (world e) p q) = None)) \<longrightarrow>
        BytesMoved (stats e') = BytesMoved (stats e)) \<and>
     (\<forall>si. Lstat os (world e) p = Inr si \<and> IsDir si \<longrightarrow>
        BytesMoved (stats e') = BytesMoved (stats e))"
proof -
  from assms have e': "e' = snd (processPath os opts p q e)" by simp
  let ?e2 = "e\<lparr>calls := calls e @ [CallLstat p, CallLstat q]\<rparr>"
  have moved: "BytesMoved (stats e') = BytesMoved (stats e) + Size si \<and>
        FilesMoved (stats e') = FilesMoved (stats e) + 1 \<and>
        (if DryRun opts
         then world e' = world e \<and> calls e' = calls e @ [CallLstat p, CallLstat q]
         else world e' = snd (Rename os (world e) p q) \<and>
              calls e' = calls e @ [CallLstat p, CallLstat q, CallRename p q])"
    if h: "p \<noteq> q" "Lstat os (world e) p = Inr si" "\<not> IsSymlink si" "\<not> IsDir si"
      and f: "Lstat os (world e) q = Inl err"
      and ok: "DryRun opts \<or> fst (Rename os (world e) p q) = None"
    for si err
  proof (cases "DryRun opts")
    case True
    with file_job_eq [OF h, of opts] f e' show ?thesis by (simp add: processFile_dry)
  next
    case False
    with ok obtain w' where rn: "Rename os (world e) p q = (None, w')"
      by (cases "Rename os (world e) p q") auto
    then have "Rename os (world ?e2) p q = (None, w')" by simp
    from processFile_moved [OF False this, of si] file_job_eq [OF h, of opts] f e' rn False
    show ?thesis by simp
  qed
  have same: "BytesMoved (stats e') = BytesMoved (stats e)"
    if n: "\<not> (\<exists>si err. p \<noteq> q \<and> Lstat os (world e) p = Inr si \<and> \<not> IsSymlink si \<and>
           \<not> IsDir si \<and> Lstat os (world e) q = Inl err \<and>
           (DryRun opts \<or> fst (Rename os (world e) p q) = None))"
  proof (cases "p \<noteq> q \<and> (\<exists>si. Lstat os (world e) p = Inr si \<and> \<not> IsSymlink si \<and> \<not> IsDir si)")
    case False
    from not_file_job [OF False, of opts] e' show ?thesis by simp
  next
    case True
    then obtain si where h: "p \<noteq> q" "Lstat os (world e) p = Inr si" "\<not> IsSymlink si"
      "\<not> IsDir si"
      by blast
    note eq = file_job_eq [OF h, of opts]
    show ?thesis
    proof (cases "Lstat os (world e) q")
      case (Inr ti)
      with eq e' show ?thesis by (simp add: processFile_skip)
    next
      case (Inl err)
      with n h have nd: "\<not> DryRun opts" and nr: "fst (Rename os (world e) p q) \<noteq> None"
        by auto
      from nr obtain x w' where rn: "Rename os (world e) p q = (Some x, w')"
        by (cases "Rename os (world e) p q") auto
      then have "Rename os (world ?e2) p q = (Some x, w')" by simp
      from processFile_failed [OF nd this, of si] eq Inl e' show ?thesis by simp
    qed
  qed
  have dir: "BytesMoved (stats e') = BytesMoved (stats e)"
    if "Lstat os (world e) p = Inr si" "IsDir si" for si
  proof -
    from that have "\<not> (p \<noteq> q \<and> (\<exists>si. Lstat os (world e) p = Inr si \<and> \<not> IsSymlink si
        \<and> \<not> IsDir si))"
      by auto
    from not_file_job [OF this, of opts] e' show ?thesis by simp
  qed
  from moved same dir show ?thesis by blast
qed

theorem bytes_moved_only_by_file_moves_witness:
  "processPath mem_os plain ''/s/b'' ''/t/b'' (ctx0 demo_fs) =
     ([], \<lparr>world = [(''/s'', Dir), (''/t'', Dir), (''/s/a'', File 5), (''/t/b'', File 3),
                     (''/s/d'', Dir), (''/s/d/x'', File 7), (''/s/l'', Symlink ''/s/a''),
                     (''/s/k'', File 2), (''/t/a'', File 1), (''/t/k'', Locked)],
           stats = (zero_stats 0)\<lparr>FilesChecked := 1, FilesMoved := 1, BytesMoved := 3\<rparr>,
           calls = [CallLstat ''/s/b'', CallLstat ''/t/b'', CallRename ''/s/b'' ''/t/b'']\<rparr>) \<and>
   DirsMoved (stats (snd (processPath mem_os plain ''/s/d'' ''/t/d'' (ctx0 demo_fs)))) = 1 \<and>
   BytesMoved (stats (snd (processPath mem_os plain ''/s/d'' ''/t/d'' (ctx0 demo_fs)))) = 0 \<and>
   map_of demo_fs ''/s/d/x'' = Some (File 7)"
proof -
  have b: "''/s/b'' \<noteq> ''/t/b'' \<and>
      Lstat mem_os (world (ctx0 demo_fs)) ''/s/b'' = Inr \<lparr>Mode = 420, Size = 3\<rparr> \<and>
      \<not> IsSymlink \<lparr>Mode = 420, Size = 3\<rparr> \<and> \<not> IsDir \<lparr>Mode = 420, Size = 3\<rparr> \<and>
      Lstat mem_os (world (ctx0 demo_fs)) ''/t/b'' = Inl ErrNotExist \<and>
      (DryRun plain \<or> fst (Rename mem_os (world (ctx0 demo_fs)) ''/s/b'' ''/t/b'') = None)"
    by (simp add: demo_lstat0 demo_lstat demo_modes ctx0_simps demo_rename)
  have d: "Lstat mem_os (world (ctx0 demo_fs)) ''/s/d'' = Inr \<lparr>Mode = ModeDir OR 493, Size = 4096\<rparr>
      \<and> IsDir \<lparr>Mode = ModeDir OR 493, Size = 4096\<rparr>"
    by (simp add: demo_lstat0 demo_lstat demo_modes)
  from bytes_moved_only_by_file_moves [OF demo_file_move, THEN conjunct1, rule_format, OF b]
  have "BytesMoved (stats (snd (processPath mem_os plain ''/s/b'' ''/t/b'' (ctx0 demo_fs)))) = 3"
    by (simp add: demo_file_move ctx0_simps zero_stats_def)
  from bytes_moved_only_by_file_moves
    [OF demo_dir_move, THEN conjunct2, THEN conjunct2, rule_format, OF d]
  have "BytesMoved (stats (snd (processPath mem_os plain ''/s/d'' ''/t/d'' (ctx0 demo_fs)))) = 0"
    by (simp add: demo_dir_move ctx0_simps zero_stats_def)
  moreover have
    "DirsMoved (stats (snd (processPath mem_os plain ''/s/d'' ''/t/d'' (ctx0 demo_fs)))) = 1"
    by (simp add: demo_dir_move zero_stats_def)
  moreover have "map_of demo_fs ''/s/d/x'' = Some (File 7)"
    by (simp add: demo_fs_def)
  ultimately show ?thesis using demo_file_move by (intro conjI)
qed

text \<open>
  The addition wraps around as \<^verbatim>\<open>int64\<close> does: two sizes of \<open>2^62\<close> bytes add up to a
  BytesMoved that reads \<open>- 2^63\<close>.
\<close>

lemma bytes_moved_wraps:
  "sint (BytesMoved (stats (atomic_AddInt64 BytesMoved_update (2 ^ 62)
          (atomic_AddInt64 BytesMoved_update (2 ^ 62) (ctx0 w))))) = - (2 ^ 63)"
  by (simp add: atomic_AddInt64_def ctx0_def zero_stats_def)

section \<open>Example runs\<close>

lemma init8:
  "performMove_init mem_os (opts4 d) 0 ''/s'' ''/t'' fs8 =
     Inr (pool1 c8_0 0 [] False Recv (main_ops ''/s'' ''/t'') None)"
  by (simp add: performMove_init_def mem_defs fs8_def opts4_def bufferSize_def pool1_def c8_0_def)

lemma init6:
  "performMove_init mem_os (opts4 d) 0 ''/s'' ''/t'' fs6 =
     Inr (pool1 c6_0 0 [] False Recv (main_ops ''/s'' ''/t'') None)"
  by (simp add: performMove_init_def mem_defs fs6_def opts4_def bufferSize_def pool1_def c6_0_def)

lemma job8_root: "processPath mem_os (opts4 d) ''/s'' ''/t'' c8_0 = ([job_k], c8_3)"
  by (simp add: mem_defs job_defs fs8_def opts4_def c8_0_def c8_3_def job_k_def
        root_stats_def root_calls_def)

lemma job8_k: "processPath mem_os (opts4 False) ''/s/k'' ''/t/k'' c8_3 = ([], c8_7)"
  by (simp add: mem_defs job_defs fs8_def opts4_def c8_3_def c8_7_def
        root_stats_def root_calls_def)

lemma job8_k_dry: "processPath mem_os (opts4 True) ''/s/k'' ''/t/k'' c8_3 = ([], c8_7d)"
  by (simp add: mem_defs job_defs fs8_def opts4_def c8_3_def c8_7d_def
        root_stats_def root_calls_def)

lemma job6_root: "processPath mem_os (opts4 d) ''/s'' ''/t'' c6_0 = ([job_a], c6_3)"
  by (simp add: mem_defs job_defs fs6_def opts4_def c6_0_def c6_3_def job_a_def
        root_stats_def root_calls_def)

lemma job6_a: "processPath mem_os (opts4 False) ''/s/a'' ''/t/a'' c6_3 = ([], c6_7)"
  by (simp add: mem_defs job_defs fs6_def opts4_def c6_3_def c6_7_def
        root_stats_def root_calls_def)

lemmas run_defs = sched1_def step_def pool1_def main_ops_def after_op_def job_k_def job_a_def

lemma run8_expanding:
  "run mem_os (opts4 False) [Main, Main, Worker 0, Worker 0]
     (pool1 c8_0 0 [] False Recv (main_ops ''/s'' ''/t'') None) =
   Some (pool1 c8_3 2 [] False (Busy [ChSend job_k, WgDone]) [WgWait, ChClose, CheckErrors] None)"
  by (simp add: run_defs job8_root [unfolded job_k_def])

lemma run8:
  "run mem_os (opts4 False) sched1 (pool1 c8_0 0 [] False Recv (main_ops ''/s'' ''/t'') None) =
   Some (pool1 c8_7 0 [] True Recv [] (Some (Some (CompletedWithErrors 1))))"
  by (simp add: run_defs job8_root [unfolded job_k_def] job8_k completion_def c8_7_def
        root_stats_def zero_stats_def)

lemma run8_dry:
  "run mem_os (opts4 True) sched1 (pool1 c8_0 0 [] False Recv (main_ops ''/s'' ''/t'') None) =
   Some (pool1 c8_7d 0 [] True Recv [] (Some None))"
  by (simp add: run_defs job8_root [unfolded job_k_def] job8_k_dry completion_def c8_7d_def
        root_stats_def zero_stats_def)

lemma run6:
  "run mem_os (opts4 False) sched1 (pool1 c6_0 0 [] False Recv (main_ops ''/s'' ''/t'') None) =
   Some (pool1 c6_7 0 [] True Recv [] (Some None))"
  by (simp add: run_defs job6_root [unfolded job_a_def] job6_a completion_def c6_7_def
        root_stats_def zero_stats_def)

lemma performMove8:
  "performMove mem_os (opts4 False) 0 ''/s'' ''/t'' fs8 sched1 =
     Inr (Some (pool1 c8_7 0 [] True Recv [] (Some (Some (CompletedWithErrors 1)))))"
  "performMove mem_os (opts4 False) 0 ''/s'' ''/t'' fs8 [Main, Main, Worker 0, Worker 0] =
     Inr (Some (pool1 c8_3 2 [] False (Busy [ChSend job_k, WgDone])
                  [WgWait, ChClose, CheckErrors] None))"
  "performMove mem_os (opts4 True) 0 ''/s'' ''/t'' fs8 sched1 =
     Inr (Some (pool1 c8_7d 0 [] True Recv [] (Some None)))"
  by (simp_all only: performMove_def init8 run8 run8_expanding run8_dry sum.case)

lemma performMove6:
  "performMove mem_os (opts4 False) 0 ''/s'' ''/t'' fs6 sched1 =
     Inr (Some (pool1 c6_7 0 [] True Recv [] (Some None)))"
  by (simp only: performMove_def init6 run6 sum.case)








section \<open>Claims about a whole run\<close>



text \<open>
  C5: with dry-run enabled no rename is performed: in every state of every run the file
  system is the one the run started with and the list of calls holds no rename, and the
  same holds for each single Job. The moved counters are still incremented: a Job whose
  target is absent (\<^verbatim>\<open>Lstat\<close> on it fails) makes its two \<^verbatim>\<open>Lstat\<close> calls and nothing
  else, has no children, and adds one to DirsChecked and DirsMoved when its source is a
  directory, and one to FilesChecked and FilesMoved and the size of the file to
  BytesMoved when it is not. This is as if each planned move had succeeded: a Job under
  dry-run yields the same children and the same statistics as the same Job with dry-run
  off on an operating system that answers the same and whose rename of the Job's source
  onto its target succeeds.
\<close>

theorem dry_run_no_rename:
  assumes "DryRun opts"
  shows "(\<forall>now source target w sched st.
            performMove os opts now source target w sched = Inr (Some st) \<longrightarrow>
            world (ctx st) = w \<and> filter is_rename (calls (ctx st)) = []) \<and>
    world (snd (processPath os opts s t e)) = world e \<and>
    filter is_rename (calls (snd (processPath os opts s t e))) = filter is_rename (calls e) \<and>
    (\<forall>si err. s \<noteq> t \<and> Lstat os (world e) s = Inr si \<and> \<not> IsSymlink si \<and>
        Lstat os (world e) t = Inl err \<longrightarrow>
        processPath os opts s t e =
          ([], e\<lparr>stats :=
                   (if IsDir si
                    then (stats e)\<lparr>DirsChecked := DirsChecked (stats e) + 1,
                                    DirsMoved := DirsMoved (stats e) + 1\<rparr>
                    else (stats e)\<lparr>FilesChecked := FilesChecked (stats e) + 1,
                                    FilesMoved := FilesMoved (stats e) + 1,
                                    BytesMoved := BytesMoved (stats e) + Size si\<rparr>),
                 calls := calls e @ [CallLstat s, CallLstat t]\<rparr>)) \<and>
    (\<forall>rn. fst (rn (world e) s t) = None \<longrightarrow>
       fst (processPath os opts s t e) =
         fst (processPath (os\<lparr>Rename := rn\<rparr>) (opts\<lparr>DryRun := False\<rparr>) s t e) \<and>
       stats (snd (processPath os opts s t e)) =
         stats (snd (processPath (os\<lparr>Rename := rn\<rparr>) (opts\<lparr>DryRun := False\<rparr>) s t e)))"
proof -
  have "world (ctx st) = w \<and> filter is_rename (calls (ctx st)) = []"
    if "performMove os opts now source target w sched = Inr (Some st)"
    for now source target w sched st
  proof -
    from that obtain s0 where a: "performMove_init os opts now source target w = Inr s0"
      and b: "run os opts sched s0 = Some st"
      by (auto simp: performMove_def split: sum.splits)
    from init_state [OF a] dry_run [OF assms b] show ?thesis by simp
  qed
  then have a: "\<forall>now source target w sched st.
            performMove os opts now source target w sched = Inr (Some st) \<longrightarrow>
            world (ctx st) = w \<and> filter is_rename (calls (ctx st)) = []"
    by (intro allI impI)
  from dry_job [OF assms, of os s t e]
  have b: "world (snd (processPath os opts s t e)) = world e"
    and c: "filter is_rename (calls (snd (processPath os opts s t e))) = filter is_rename (calls e)"
    by simp_all
  have m: "processPath os opts s t e =
          ([], e\<lparr>stats :=
                   (if IsDir si
                    then (stats e)\<lparr>DirsChecked := DirsChecked (stats e) + 1,
                                    DirsMoved := DirsMoved (stats e) + 1\<rparr>
                    else (stats e)\<lparr>FilesChecked := FilesChecked (stats e) + 1,
                                    FilesMoved := FilesMoved (stats e) + 1,
                                    BytesMoved := BytesMoved (stats e) + Size si\<rparr>),
                 calls := calls e @ [CallLstat s, CallLstat t]\<rparr>)"
    if h: "s \<noteq> t" "Lstat os (world e) s = Inr si" "\<not> IsSymlink si"
      and f: "Lstat os (world e) t = Inl err" for si err
  proof (cases "IsDir si")
    case True
    with dir_job_eq [OF h True, of opts] f assms show ?thesis
      by (simp add: processDir_dry)
  next
    case False
    with file_job_eq [OF h False, of opts] f assms show ?thesis
      by (simp add: processFile_dry)
  qed
  then have m': "\<forall>si err. s \<noteq> t \<and> Lstat os (world e) s = Inr si \<and> \<not> IsSymlink si \<and>
        Lstat os (world e) t = Inl err \<longrightarrow>
        processPath os opts s t e =
          ([], e\<lparr>stats :=
                   (if IsDir si
                    then (stats e)\<lparr>DirsChecked := DirsChecked (stats e) + 1,
                                    DirsMoved := DirsMoved (stats e) + 1\<rparr>
                    else (stats e)\<lparr>FilesChecked := FilesChecked (stats e) + 1,
                                    FilesMoved := FilesMoved (stats e) + 1,
                                    BytesMoved := BytesMoved (stats e) + Size si\<rparr>),
                 calls := calls e @ [CallLstat s, CallLstat t]\<rparr>)"
    by blast
  have d: "\<forall>rn. fst (rn (world e) s t) = None \<longrightarrow>
       fst (processPath os opts s t e) =
         fst (processPath (os\<lparr>Rename := rn\<rparr>) (opts\<lparr>DryRun := False\<rparr>) s t e) \<and>
       stats (snd (processPath os opts s t e)) =
         stats (snd (processPath (os\<lparr>Rename := rn\<rparr>) (opts\<lparr>DryRun := False\<rparr>) s t e))"
    by (intro allI impI) (rule dry_as_real [OF assms])
  from a b c m' d show ?thesis by (intro conjI)
qed

theorem dry_run_no_rename_witness:
  "DryRun (opts4 True) \<and>
   performMove mem_os (opts4 True) 0 ''/s'' ''/t'' fs8 sched1 =
     Inr (Some (pool1 c8_7d 0 [] True Recv [] (Some None))) \<and>
   world c8_7d = fs8 \<and>
   filter is_rename (calls c8_7d) = [] \<and>
   FilesMoved (stats c8_7d) = 1 \<and> BytesMoved (stats c8_7d) = 2 \<and>
   DryRun dry \<and>
   processPath mem_os dry ''/s/d'' ''/t/d'' (ctx0 demo_fs) =
     ([], \<lparr>world = demo_fs, stats = (zero_stats 0)\<lparr>DirsChecked := 1, DirsMoved := 1\<rparr>,
           calls = [CallLstat ''/s/d'', CallLstat ''/t/d'']\<rparr>) \<and>
   processPath mem_os dry ''/s/b'' ''/t/b'' (ctx0 demo_fs) =
     ([], \<lparr>world = demo_fs,
           stats = (zero_stats 0)\<lparr>FilesChecked := 1, FilesMoved := 1, BytesMoved := 3\<rparr>,
           calls = [CallLstat ''/s/b'', CallLstat ''/t/b'']\<rparr>) \<and>
   fst (mem_Rename demo_fs ''/s/b'' ''/t/b'') = None \<and>
   stats (snd (processPath mem_os dry ''/s/b'' ''/t/b'' (ctx0 demo_fs))) =
     stats (snd (processPath mem_os plain ''/s/b'' ''/t/b'' (ctx0 demo_fs)))"
proof -
  have d4: "DryRun (opts4 True)" by (simp add: opts4_def)
  have r: "fst (mem_Rename (world (ctx0 demo_fs)) ''/s/b'' ''/t/b'') = None"
    by (simp add: ctx0_simps mem_Rename_def demo_fs_def)
  have p: "dry\<lparr>DryRun := False\<rparr> = plain" "mem_os\<lparr>Rename := mem_Rename\<rparr> = mem_os"
    by (simp_all add: dry_def plain_def mem_os_def)
  have hd: "''/s/d'' \<noteq> ''/t/d'' \<and>
      Lstat mem_os (world (ctx0 demo_fs)) ''/s/d'' = Inr \<lparr>Mode = ModeDir OR 493, Size = 4096\<rparr> \<and>
      \<not> IsSymlink \<lparr>Mode = ModeDir OR 493, Size = 4096\<rparr> \<and>
      Lstat mem_os (world (ctx0 demo_fs)) ''/t/d'' = Inl ErrNotExist"
    by (simp add: demo_lstat0 demo_lstat demo_modes)
  have hb: "''/s/b'' \<noteq> ''/t/b'' \<and>
      Lstat mem_os (world (ctx0 demo_fs)) ''/s/b'' = Inr \<lparr>Mode = 420, Size = 3\<rparr> \<and>
      \<not> IsSymlink \<lparr>Mode = 420, Size = 3\<rparr> \<and>
      Lstat mem_os (world (ctx0 demo_fs)) ''/t/b'' = Inl ErrNotExist"
    by (simp add: demo_lstat0 demo_lstat demo_modes)
  from dry_run_no_rename [OF d4, THEN conjunct1, rule_format, OF performMove8(3)]
  have "world c8_7d = fs8 \<and> filter is_rename (calls c8_7d) = []"
    by (simp add: pool1_def)
  moreover
  note dry_d = dry_run_no_rename [OF dry_flag, of mem_os "''/s/d''" "''/t/d''" "ctx0 demo_fs"]
  from dry_d [THEN conjunct2, THEN conjunct2, THEN conjunct2, THEN conjunct1, rule_format, OF hd]
  have "processPath mem_os dry ''/s/d'' ''/t/d'' (ctx0 demo_fs) =
     ([], \<lparr>world = demo_fs, stats = (zero_stats 0)\<lparr>DirsChecked := 1, DirsMoved := 1\<rparr>,
           calls = [CallLstat ''/s/d'', CallLstat ''/t/d'']\<rparr>)"
    by (simp add: demo_modes ctx0_def zero_stats_def)
  moreover
  note dry_b = dry_run_no_rename [OF dry_flag, of mem_os "''/s/b''" "''/t/b''" "ctx0 demo_fs"]
  from dry_b [THEN conjunct2, THEN conjunct2, THEN conjunct2, THEN conjunct1, rule_format, OF hb]
  have "processPath mem_os dry ''/s/b'' ''/t/b'' (ctx0 demo_fs) =
     ([], \<lparr>world = demo_fs,
           stats = (zero_stats 0)\<lparr>FilesChecked := 1, FilesMoved := 1, BytesMoved := 3\<rparr>,
           calls = [CallLstat ''/s/b'', CallLstat ''/t/b'']\<rparr>)"
    by (simp add: demo_modes ctx0_def zero_stats_def)
  moreover
  from dry_b [THEN conjunct2, THEN conjunct2, THEN conjunct2, THEN conjunct2, rule_format,
      of mem_Rename, OF r]
  have "stats (snd (processPath mem_os dry ''/s/b'' ''/t/b'' (ctx0 demo_fs))) =
     stats (snd (processPath mem_os plain ''/s/b'' ''/t/b'' (ctx0 demo_fs)))"
    by (simp only: p)
  moreover have "FilesMoved (stats c8_7d) = 1 \<and> BytesMoved (stats c8_7d) = 2"
    by (simp add: c8_7d_def)
  moreover from r have "fst (mem_Rename demo_fs ''/s/b'' ''/t/b'') = None"
    by (simp add: ctx0_simps)
  ultimately show ?thesis using d4 dry_flag performMove8(3) by simp
qed

text \<open>
  C6: when \<^verbatim>\<open>performMove\<close> has returned, all Jobs have resolved (the counter is zero,
  the channel is empty, no worker holds a Job), and the value returned is an error
  exactly when the error counter is not zero, whatever the other counters say: a run
  with skipped entries and no error returns \<^verbatim>\<open>nil\<close>. And once all Jobs have resolved
  (the main goroutine waits and the counter is zero) the main goroutine can take its
  three remaining steps and return that value.
\<close>

theorem run_fails_iff_errors:
  assumes "performMove os opts now source target w sched = Inr (Some s)"
  shows "(\<forall>r. outcome s = Some r \<longrightarrow>
            wg s = 0 \<and> chan s = [] \<and> \<not> list_ex is_busy (workers s) \<and>
            r = completion (stats (ctx s)) \<and>
            (r = None) = (Errors (stats (ctx s)) = 0) \<and>
            (r \<noteq> None) = (r = Some (CompletedWithErrors (Errors (stats (ctx s)))))) \<and>
    (mainq s = [WgWait, ChClose, CheckErrors] \<and> wg s = 0 \<longrightarrow>
       (\<exists>s'. run os opts [Main, Main, Main] s = Some s' \<and> ctx s' = ctx s \<and>
             outcome s' = Some (completion (stats (ctx s)))))"
proof -
  from performMove_reaches [OF assms]
  have inv: "sync_inv s" and oc: "outcome_ok s" and st: "stats_inv opts (stats (ctx s))"
    by simp_all
  from st have e0: "0 \<le> Errors (stats (ctx s))" by (simp add: stats_inv_def)
  have a: "wg s = 0 \<and> chan s = [] \<and> \<not> list_ex is_busy (workers s) \<and>
            r = completion (stats (ctx s)) \<and>
            (r = None) = (Errors (stats (ctx s)) = 0) \<and>
            (r \<noteq> None) = (r = Some (CompletedWithErrors (Errors (stats (ctx s)))))"
    if "outcome s = Some r" for r
  proof -
    from inv that have w0: "wg s = 0" by (auto simp: sync_inv_def)
    from oc that have r: "r = completion (stats (ctx s))" by (simp add: outcome_ok_def)
    from quiescent [OF inv w0] w0 r e0 show ?thesis by (auto simp: completion_def)
  qed
  have b: "\<exists>s'. run os opts [Main, Main, Main] s = Some s' \<and> ctx s' = ctx s \<and>
             outcome s' = Some (completion (stats (ctx s)))"
    if "mainq s = [WgWait, ChClose, CheckErrors]" "wg s = 0"
  proof -
    from inv that have "panicked s = None" "\<not> closed s" by (auto simp: sync_inv_def)
    with that show ?thesis by (simp add: step_def)
  qed
  from a b show ?thesis by blast
qed

theorem run_fails_iff_errors_witness:
  "performMove mem_os (opts4 False) 0 ''/s'' ''/t'' fs6 sched1 =
     Inr (Some (pool1 c6_7 0 [] True Recv [] (Some None))) \<and>
   FilesSkipped (stats c6_7) = 1 \<and> Errors (stats c6_7) = 0 \<and>
   completion (stats c6_7) = None \<and>
   performMove mem_os (opts4 False) 0 ''/s'' ''/t'' fs8 sched1 =
     Inr (Some (pool1 c8_7 0 [] True Recv [] (Some (Some (CompletedWithErrors 1))))) \<and>
   Errors (stats c8_7) = 1"
proof -
  have o6: "outcome (pool1 c6_7 0 [] True Recv [] (Some None)) = Some None"
    and x6: "ctx (pool1 c6_7 0 [] True Recv [] (Some None)) = c6_7"
    by (simp_all add: pool1_def)
  have o8: "outcome (pool1 c8_7 0 [] True Recv [] (Some (Some (CompletedWithErrors 1)))) =
      Some (Some (CompletedWithErrors 1))"
    and x8: "ctx (pool1 c8_7 0 [] True Recv [] (Some (Some (CompletedWithErrors 1)))) = c8_7"
    by (simp_all add: pool1_def)
  from run_fails_iff_errors [OF performMove6, THEN conjunct1, rule_format, OF o6]
  have "completion (stats c6_7) = None \<and> Errors (stats c6_7) = 0"
    by (simp add: x6)
  moreover
  from run_fails_iff_errors [OF performMove8(1), THEN conjunct1, rule_format, OF o8]
  have "Errors (stats c8_7) \<noteq> 0" by (simp add: x8)
  moreover have "FilesSkipped (stats c6_7) = 1" "Errors (stats c8_7) = 1"
    by (simp_all add: c6_7_def c8_7_def)
  ultimately show ?thesis by (simp add: performMove6 performMove8(1))
qed

text \<open>
  C7 says that validation tells a symbolic link from a path of the wrong type. The code
  has a message of its own for each, but tests \<^verbatim>\<open>IsDir()\<close> first: \<^verbatim>\<open>Lstat\<close> reports a
  symlink with the symlink bit set and the directory bit clear, so a symlink given as
  source (here \<open>/link\<close>, which points to the directory \<open>/real\<close>) is answered with "source
  must be a directory", the answer a regular file (\<open>/f\<close>) gets, and likewise for the
  target. A missing path is told apart.
\<close>

theorem symlink_root_reported_as_not_directory:
  "Lstat mem_os link_fs ''/link'' = Inr \<lparr>Mode = ModeSymlink OR 511, Size = 5\<rparr> \<and>
   performMove_init mem_os plain 0 ''/link'' ''/t'' link_fs = Inl SourceNotDir \<and>
   performMove_init mem_os plain 0 ''/f'' ''/t'' link_fs = Inl SourceNotDir \<and>
   performMove_init mem_os plain 0 ''/real'' ''/link'' link_fs = Inl TargetNotDir \<and>
   performMove_init mem_os plain 0 ''/real'' ''/f'' link_fs = Inl TargetNotDir \<and>
   performMove_init mem_os plain 0 ''/gone'' ''/t'' link_fs = Inl (SourcePathError ErrNotExist)"
  by (simp add: performMove_init_def mem_os_def mem_Lstat_def link_fs_def IsDir_def
        IsSymlink_def ModeDir_def ModeSymlink_def)

text \<open>
  What does hold of validation: the symlink answers are given only for a file mode with
  both the directory bit and the symlink bit, which \<^verbatim>\<open>Lstat\<close> never reports; and the
  workers start, with an empty channel and the seed still to be sent, only when both
  paths are directories by \<^verbatim>\<open>Lstat\<close>, after exactly these two calls.
\<close>

lemma symlink_answer_needs_both_bits:
  "(performMove_init os opts now source target w = Inl SourceSymlink) =
     (\<exists>si. Lstat os w source = Inr si \<and> IsDir si \<and> IsSymlink si)"
  by (auto simp: performMove_init_def split: sum.splits)







end
